theory Spec2Isabelle
  imports Main
begin

section \<open>The tiered memory store (class EnhancedAgentMemory)\<close>

text \<open>
  JavaScript strings are modelled as \<open>string\<close>; a \<open>char\<close> stands for one UTF-16 code unit
  in the range 0..255. Token counts, message counts and clock readings are natural numbers:
  \<open>Math.ceil(n * 1.33)\<close> is an integer-valued double, and the sums kept by the store stay far
  below \<open>2^53\<close>, so the double arithmetic of the source is exact.

  \<open>Date.now()\<close> and \<open>Math.random()\<close> are inputs of every call: \<open>now\<close> is the clock
  reading during the call and \<open>rnd\<close> the random suffix of a generated id.
\<close>

subsection \<open>Data\<close>

text \<open>
  The argument of \<open>addMessage\<close>. A field that is \<open>undefined\<close> is \<open>None\<close>; every other
  property of the JavaScript object travels in \<open>raw_extra\<close> (the spread \<open>...message\<close>).
\<close>

record 'x raw_message =
  raw_content :: "string option"
  raw_role :: "string option"
  raw_type :: "string option"
  raw_extra :: 'x

text \<open>The enriched message stored by \<open>addMessage\<close>; the id is \<open>msg_<now>_<rnd>\<close>.\<close>

record 'x message =
  msg_id :: "nat \<times> string"
  timestamp :: nat
  tokenCount :: nat
  role :: string
  mtype :: string
  content :: "string option"
  extra :: 'x

record contextStats =
  totalTokens :: nat
  userMessages :: nat
  assistantMessages :: nat
  toolCalls :: nat
  compressionCount :: nat
  sessionStart :: nat
  lastCompressTime :: nat

text \<open>
  \<open>tokenThreshold\<close> is \<open>4000 * 0.92\<close>, which is exactly \<open>3680\<close> in IEEE double arithmetic.
  The constant \<open>compressionRatio: 0.8\<close> of the source is a float that nothing reads; it is
  left out.
\<close>

record compressionConfig =
  tokenThreshold :: nat
  messageThreshold :: nat
  maxContextSize :: nat

record 'x messagesByRole =
  mbr_user :: "'x message list"
  mbr_assistant :: "'x message list"
  mbr_system :: "'x message list"
  mbr_tool :: "'x message list"

text \<open>
  One entry of \<open>mediumTerm\<close>. Of the eight sections of the structured summary, the
  background context and the metadata are modelled; the other sections are text mining over
  \<open>shortTerm\<close> (keyword filters and regular expressions) whose output no property below reads.
\<close>

record session_entry =
  se_role :: string
  se_type :: string
  se_preview :: string
  se_timestamp :: nat

record summary =
  projectPath :: "string option"
  currentTask :: "string option"
  sessionContext :: "session_entry list"
  sm_originalCount :: nat
  savedTokens :: nat
  compressionTime :: nat
  sessionDuration :: int

record compression =
  c_summary :: summary
  c_timestamp :: nat
  originalCount :: nat
  originalTokens :: nat

record 'x memory =
  shortTerm :: "'x message list"
  mediumTerm :: "compression list"
  longTerm :: "string \<rightharpoonup> string"
  llmMessages :: "'x message list"
  messagesByRole :: "'x messagesByRole"
  contextStats :: contextStats
  compressionConfig :: compressionConfig

text \<open>The constructor, called when the clock reads \<open>now\<close>.\<close>

definition newMemory :: "nat \<Rightarrow> 'x memory" where
  "newMemory now =
     \<lparr> shortTerm = [], mediumTerm = [], longTerm = Map.empty, llmMessages = [],
       messagesByRole = \<lparr> mbr_user = [], mbr_assistant = [], mbr_system = [], mbr_tool = [] \<rparr>,
       contextStats = \<lparr> totalTokens = 0, userMessages = 0, assistantMessages = 0,
         toolCalls = 0, compressionCount = 0, sessionStart = now, lastCompressTime = now \<rparr>,
       compressionConfig = \<lparr> tokenThreshold = 3680, messageThreshold = 100,
         maxContextSize = 4000 \<rparr> \<rparr>"

subsection \<open>Token estimation\<close>

text \<open>The characters matched by \<open>\s\<close> among the code units 0..255.\<close>

definition isSpace :: "char \<Rightarrow> bool" where
  "isSpace c = (of_char c \<in> {9, 10, 11, 12, 13, 32, 160 :: nat})"

text \<open>
  \<open>text.split(/\s+/).length\<close>: one more than the number of maximal runs of white space.
  \<open>inRun\<close> says that the previous character was white space.
\<close>

fun countRuns :: "bool \<Rightarrow> string \<Rightarrow> nat" where
  "countRuns inRun [] = 0"
| "countRuns inRun (c # cs) =
     (if isSpace c then (if inRun then 0 else 1) + countRuns True cs
      else countRuns False cs)"

definition splitLength :: "string \<Rightarrow> nat" where
  "splitLength text = 1 + countRuns False text"

text \<open>
  \<open>if (!text) return 0; return Math.ceil(text.split(/\s+/).length * 1.33)\<close>.
  For a natural number \<open>n\<close>, the double \<open>n * 1.33\<close> rounds up to \<open>\<lceil>133 n / 100\<rceil>\<close>.
\<close>

definition estimateTokens :: "string \<Rightarrow> nat" where
  "estimateTokens text = (if text = [] then 0 else (133 * splitLength text + 99) div 100)"

text \<open>\<open>x || d\<close> on an optional string: \<open>undefined\<close> and the empty string are falsy.\<close>

definition orElse :: "string option \<Rightarrow> string \<Rightarrow> string" where
  "orElse x d = (case x of None \<Rightarrow> d | Some s \<Rightarrow> if s = [] then d else s)"

subsection \<open>Operations\<close>

definition enrich :: "nat \<Rightarrow> string \<Rightarrow> 'x raw_message \<Rightarrow> 'x message" where
  "enrich now rnd m =
     \<lparr> msg_id = (now, rnd), timestamp = now,
       tokenCount = estimateTokens (orElse (raw_content m) []),
       role = orElse (raw_role m) ''system'',
       mtype = orElse (raw_type m) ''general'',
       content = raw_content m,
       extra = raw_extra m \<rparr>"

definition isLLMRole :: "string \<Rightarrow> bool" where
  "isLLMRole r = (r \<in> set [''user'', ''assistant'', ''system'', ''tool''])"

definition pushByRole :: "'x message \<Rightarrow> 'x messagesByRole \<Rightarrow> 'x messagesByRole" where
  "pushByRole e b =
     (if role e = ''user'' then b\<lparr> mbr_user := mbr_user b @ [e] \<rparr>
      else if role e = ''assistant'' then b\<lparr> mbr_assistant := mbr_assistant b @ [e] \<rparr>
      else if role e = ''system'' then b\<lparr> mbr_system := mbr_system b @ [e] \<rparr>
      else if role e = ''tool'' then b\<lparr> mbr_tool := mbr_tool b @ [e] \<rparr>
      else b)"

definition updateContextStats :: "'x message \<Rightarrow> contextStats \<Rightarrow> contextStats" where
  "updateContextStats e st =
     (let st1 = st\<lparr> totalTokens := totalTokens st + tokenCount e \<rparr>
      in if role e = ''user'' then st1\<lparr> userMessages := userMessages st1 + 1 \<rparr>
         else if role e = ''assistant'' then st1\<lparr> assistantMessages := assistantMessages st1 + 1 \<rparr>
         else if role e = ''tool'' then st1\<lparr> toolCalls := toolCalls st1 + 1 \<rparr>
         else st1)"

definition shouldCompress :: "'x memory \<Rightarrow> bool" where
  "shouldCompress s =
     (totalTokens (contextStats s) > tokenThreshold (compressionConfig s) \<or>
      length (shortTerm s) > messageThreshold (compressionConfig s))"

text \<open>\<open>xs.slice(-n)\<close>: the last \<open>n\<close> elements, the whole array when it is shorter.\<close>

definition sliceLast :: "nat \<Rightarrow> 'a list \<Rightarrow> 'a list" where
  "sliceLast n xs = drop (length xs - n) xs"

definition extractBackgroundContext :: "'x message list \<Rightarrow> session_entry list" where
  "extractBackgroundContext messages =
     map (\<lambda>m. \<lparr> se_role = role m, se_type = mtype m,
                 se_preview = take 80 (case content m of None \<Rightarrow> [] | Some c \<Rightarrow> c),
                 se_timestamp = timestamp m \<rparr>)
         (sliceLast 10 messages)"

definition generateStructuredSummary :: "nat \<Rightarrow> 'x memory \<Rightarrow> summary" where
  "generateStructuredSummary now s =
     \<lparr> projectPath = longTerm s ''projectPath'',
       currentTask = longTerm s ''currentTask'',
       sessionContext = extractBackgroundContext (shortTerm s),
       sm_originalCount = length (shortTerm s),
       savedTokens = totalTokens (contextStats s),
       compressionTime = now,
       sessionDuration = int now - int (sessionStart (contextStats s)) \<rparr>"

text \<open>Drops from the per-role lists every message older than 24 hours.\<close>

definition cleanupOldMessages :: "nat \<Rightarrow> 'x messagesByRole \<Rightarrow> 'x messagesByRole" where
  "cleanupOldMessages now b =
     (let keep = filter (\<lambda>m. int (timestamp m) > int now - 24 * 60 * 60 * 1000)
      in \<lparr> mbr_user = keep (mbr_user b), mbr_assistant = keep (mbr_assistant b),
           mbr_system = keep (mbr_system b), mbr_tool = keep (mbr_tool b) \<rparr>)"

definition compressMemory :: "nat \<Rightarrow> 'x memory \<Rightarrow> 'x memory" where
  "compressMemory now s =
     (let compressed = generateStructuredSummary now s;
          entry = \<lparr> c_summary = compressed, c_timestamp = now,
                    originalCount = length (shortTerm s),
                    originalTokens = totalTokens (contextStats s) \<rparr>;
          kept = sliceLast 20 (shortTerm s)
      in s\<lparr> mediumTerm := mediumTerm s @ [entry],
            shortTerm := kept,
            messagesByRole := cleanupOldMessages now (messagesByRole s),
            contextStats := (contextStats s)
              \<lparr> compressionCount := compressionCount (contextStats s) + 1,
                lastCompressTime := now,
                totalTokens := foldl (\<lambda>sum msg. sum + tokenCount msg) 0 kept \<rparr> \<rparr>)"

text \<open>The state after the push and the statistics update, before the compression check.\<close>

definition pushMessage :: "'x message \<Rightarrow> 'x memory \<Rightarrow> 'x memory" where
  "pushMessage e s =
     (let s1 = s\<lparr> shortTerm := shortTerm s @ [e] \<rparr>;
          s2 = (if isLLMRole (role e)
                then s1\<lparr> llmMessages := llmMessages s1 @ [e],
                         messagesByRole := pushByRole e (messagesByRole s1) \<rparr>
                else s1)
      in s2\<lparr> contextStats := updateContextStats e (contextStats s2) \<rparr>)"

definition addMessage :: "nat \<Rightarrow> string \<Rightarrow> 'x raw_message \<Rightarrow> 'x memory \<Rightarrow> 'x memory" where
  "addMessage now rnd m s =
     (let s' = pushMessage (enrich now rnd m) s
      in if shouldCompress s' then compressMemory now s' else s')"

text \<open>A sequence of \<open>addMessage\<close> calls, each with its clock reading and random suffix.\<close>

fun addMessages :: "(nat \<times> string \<times> 'x raw_message) list \<Rightarrow> 'x memory \<Rightarrow> 'x memory" where
  "addMessages [] s = s"
| "addMessages ((now, rnd, m) # calls) s = addMessages calls (addMessage now rnd m s)"

text \<open>The invariant that ties the running token counter to \<open>shortTerm\<close>.\<close>

definition tokensInSync :: "'x memory \<Rightarrow> bool" where
  "tokensInSync s = (totalTokens (contextStats s) = sum_list (map tokenCount (shortTerm s)))"

subsection \<open>The context window handed to the language model\<close>

record ctx_message =
  cm_role :: string
  cm_content :: "string option"
  cm_timestamp :: nat

text \<open>
  The result of \<open>getLLMContext\<close>. Its fourth property, \<open>compressionRatio\<close>, is a quotient of
  doubles and is left out.
\<close>

record llm_context =
  ctx_messages :: "ctx_message list"
  ctx_totalTokens :: nat
  ctx_messageCount :: nat

definition project :: "'x message \<Rightarrow> ctx_message" where
  "project msg = \<lparr> cm_role = role msg, cm_content = content msg, cm_timestamp = timestamp msg \<rparr>"

text \<open>
  The loop \<open>for (i = llmMessages.length - 1; i >= 0; i--)\<close>. The second argument holds the
  messages not visited yet, newest first; \<open>messages.unshift\<close> puts a message in front.
\<close>

fun contextLoop :: "nat \<Rightarrow> 'x message list \<Rightarrow> ctx_message list \<Rightarrow> nat \<Rightarrow> ctx_message list \<times> nat" where
  "contextLoop maxTokens [] messages currentTokens = (messages, currentTokens)"
| "contextLoop maxTokens (msg # older) messages currentTokens =
     (if currentTokens + tokenCount msg > maxTokens then (messages, currentTokens)
      else contextLoop maxTokens older (project msg # messages) (currentTokens + tokenCount msg))"

text \<open>The bound is a token count; an omitted argument (\<open>None\<close>) is 4000.\<close>

definition getLLMContext :: "nat option \<Rightarrow> 'x memory \<Rightarrow> llm_context" where
  "getLLMContext maxTokens s =
     (case contextLoop (case maxTokens of None \<Rightarrow> 4000 | Some n \<Rightarrow> n) (rev (llmMessages s)) [] 0 of
        (messages, currentTokens) \<Rightarrow>
          \<lparr> ctx_messages = messages, ctx_totalTokens = currentTokens,
            ctx_messageCount = length messages \<rparr>)"

subsection \<open>Export and import of a session\<close>

text \<open>
  The argument of \<open>importSession\<close> is any object: each property may be missing. The same
  holds for the properties of its \<open>contextStats\<close>, which are spread over the current ones.
\<close>

record stats_patch =
  p_totalTokens :: "nat option"
  p_userMessages :: "nat option"
  p_assistantMessages :: "nat option"
  p_toolCalls :: "nat option"
  p_compressionCount :: "nat option"
  p_sessionStart :: "nat option"
  p_lastCompressTime :: "nat option"

record 'x session =
  ex_shortTerm :: "'x message list option"
  ex_mediumTerm :: "compression list option"
  ex_longTerm :: "(string \<rightharpoonup> string) option"
  ex_llmMessages :: "'x message list option"
  ex_messagesByRole :: "'x messagesByRole option"
  ex_contextStats :: "stats_patch option"
  exportTime :: "nat option"

definition allStats :: "contextStats \<Rightarrow> stats_patch" where
  "allStats st =
     \<lparr> p_totalTokens = Some (totalTokens st), p_userMessages = Some (userMessages st),
       p_assistantMessages = Some (assistantMessages st), p_toolCalls = Some (toolCalls st),
       p_compressionCount = Some (compressionCount st), p_sessionStart = Some (sessionStart st),
       p_lastCompressTime = Some (lastCompressTime st) \<rparr>"

definition exportSession :: "nat \<Rightarrow> 'x memory \<Rightarrow> 'x session" where
  "exportSession now s =
     \<lparr> ex_shortTerm = Some (shortTerm s), ex_mediumTerm = Some (mediumTerm s),
       ex_longTerm = Some (longTerm s), ex_llmMessages = Some (llmMessages s),
       ex_messagesByRole = Some (messagesByRole s),
       ex_contextStats = Some (allStats (contextStats s)),
       exportTime = Some now \<rparr>"

definition orDefault :: "'a option \<Rightarrow> 'a \<Rightarrow> 'a" where
  "orDefault x d = (case x of None \<Rightarrow> d | Some v \<Rightarrow> v)"

text \<open>\<open>{ ...this.contextStats, ...data.contextStats }\<close>\<close>

definition spreadStats :: "contextStats \<Rightarrow> stats_patch option \<Rightarrow> contextStats" where
  "spreadStats st patch =
     (case patch of
        None \<Rightarrow> st
      | Some p \<Rightarrow>
          \<lparr> totalTokens = orDefault (p_totalTokens p) (totalTokens st),
            userMessages = orDefault (p_userMessages p) (userMessages st),
            assistantMessages = orDefault (p_assistantMessages p) (assistantMessages st),
            toolCalls = orDefault (p_toolCalls p) (toolCalls st),
            compressionCount = orDefault (p_compressionCount p) (compressionCount st),
            sessionStart = orDefault (p_sessionStart p) (sessionStart st),
            lastCompressTime = orDefault (p_lastCompressTime p) (lastCompressTime st) \<rparr>)"

definition importSession :: "'x session \<Rightarrow> 'x memory \<Rightarrow> 'x memory" where
  "importSession data s =
     s\<lparr> shortTerm := orDefault (ex_shortTerm data) [],
        mediumTerm := orDefault (ex_mediumTerm data) [],
        longTerm := orDefault (ex_longTerm data) Map.empty,
        llmMessages := orDefault (ex_llmMessages data) [],
        messagesByRole := orDefault (ex_messagesByRole data)
          \<lparr> mbr_user = [], mbr_assistant = [], mbr_system = [], mbr_tool = [] \<rparr>,
        contextStats := spreadStats (contextStats s) (ex_contextStats data) \<rparr>"

section \<open>The tool registry (class ToolRegistry)\<close>

text \<open>
  JavaScript values as far as parameter validation tells them apart. Numbers are integers
  here; \<open>JObject\<close> stands for any array, object or function.
\<close>

datatype jsval = JUndefined | JNull | JBool bool | JNum int | JStr string | JObject

type_synonym params = "string \<rightharpoonup> jsval"

text \<open>\<open>!params[key]\<close>: a missing key reads as \<open>undefined\<close>.\<close>

fun truthy :: "jsval \<Rightarrow> bool" where
  "truthy JUndefined = False"
| "truthy JNull = False"
| "truthy (JBool b) = b"
| "truthy (JNum n) = (n \<noteq> 0)"
| "truthy (JStr s) = (s \<noteq> [])"
| "truthy JObject = True"

definition falsyAt :: "params \<Rightarrow> string \<Rightarrow> bool" where
  "falsyAt ps key = (case ps key of None \<Rightarrow> True | Some v \<Rightarrow> \<not> truthy v)"

record param_config =
  ptype :: string
  required :: bool

text \<open>
  A registered tool: its name and its schema, in the order of the object literal. What
  \<open>execute\<close> does is an input of the step that calls it (see \<open>toolRun\<close> below).
\<close>

record tool =
  tool_name :: string
  schema :: "(string \<times> param_config) list"

type_synonym registry = "string \<rightharpoonup> tool"

definition register :: "string \<Rightarrow> tool \<Rightarrow> registry \<Rightarrow> registry" where
  "register name t reg = reg(name \<mapsto> t)"

definition req :: param_config where
  "req = \<lparr> ptype = ''string'', required = True \<rparr>"

definition opt :: param_config where
  "opt = \<lparr> ptype = ''string'', required = False \<rparr>"

definition initializeDefaultTools :: "registry \<Rightarrow> registry" where
  "initializeDefaultTools reg =
     register ''grep'' \<lparr> tool_name = ''grep'',
         schema = [(''pattern'', req), (''files'', opt), (''cwd'', opt)] \<rparr>
    (register ''glob'' \<lparr> tool_name = ''glob'', schema = [(''pattern'', req), (''cwd'', opt)] \<rparr>
    (register ''bash'' \<lparr> tool_name = ''bash'', schema = [(''command'', req)] \<rparr>
    (register ''edit'' \<lparr> tool_name = ''edit'',
         schema = [(''path'', req), (''oldString'', req), (''newString'', req)] \<rparr>
    (register ''write'' \<lparr> tool_name = ''write'', schema = [(''path'', req), (''content'', req)] \<rparr>
    (register ''read'' \<lparr> tool_name = ''read'', schema = [(''path'', req)] \<rparr> reg)))))"

definition newToolRegistry :: registry where
  "newToolRegistry = initializeDefaultTools Map.empty"

text \<open>
  \<open>ToolNotFound\<close> is the message for an unregistered tool; \<open>MissingRequired key\<close> is the
  message that names a required parameter as missing.
\<close>

datatype verror = ToolNotFound | MissingRequired string

datatype validation = Valid | Invalid verror

text \<open>The loop over \<open>Object.entries(schema)\<close>; it returns at the first entry that fails.\<close>

fun checkSchema :: "(string \<times> param_config) list \<Rightarrow> params \<Rightarrow> validation" where
  "checkSchema [] ps = Valid"
| "checkSchema ((key, config) # entries) ps =
     (if required config \<and> falsyAt ps key then Invalid (MissingRequired key)
      else checkSchema entries ps)"

definition validateParams :: "registry \<Rightarrow> string \<Rightarrow> params \<Rightarrow> validation" where
  "validateParams reg toolName ps =
     (case reg toolName of
        None \<Rightarrow> Invalid ToolNotFound
      | Some t \<Rightarrow> checkSchema (schema t) ps)"

section \<open>The task unit (class SubAgent)\<close>

subsection \<open>Exceptions, results and events\<close>

text \<open>
  The messages of the errors that travel through a unit: \<open>ExecInterrupted\<close> is thrown by
  \<open>execute\<close> and \<open>StepsInterrupted\<close> by \<open>executeSteps\<close> when the abort signal is set,
  \<open>ValidationFailed\<close> wraps the message of a failed validation, \<open>TypeErrorMsg\<close> is the message
  of a \<open>TypeError\<close> raised by the runtime, \<open>OtherMsg\<close> the message of an error thrown by a
  tool or by the language-model service.
\<close>

datatype errmsg =
    ExecInterrupted
  | StepsInterrupted
  | ValidationFailed verror
  | TypeErrorMsg
  | OtherMsg string

text \<open>A thrown value: an error object, or \<open>null\<close>/\<open>undefined\<close>.\<close>

datatype thrown = Err errmsg | Nullish

text \<open>\<open>error.message\<close> in a \<open>catch\<close> block; on \<open>null\<close> the read itself throws a \<open>TypeError\<close>.\<close>

fun messageOf :: "thrown \<Rightarrow> thrown + errmsg" where
  "messageOf (Err msg) = Inr msg"
| "messageOf Nullish = Inl (Err TypeErrorMsg)"

record tool_result =
  tr_success :: "bool option"
  tr_error :: "string option"
  tr_output :: "string option"

text \<open>
  What \<open>await toolDef.execute(params)\<close> does: it returns a value (\<open>None\<close> for \<open>null\<close> or
  \<open>undefined\<close>) or throws.
\<close>

datatype tool_outcome = Returns "tool_result option" | Throws thrown

record step_result =
  stepNumber :: nat
  totalSteps :: nat
  sr_step :: string
  sr_tool :: string
  sr_params :: "params option"
  sr_result :: "tool_result option"
  sr_error :: "errmsg option"
  sr_success :: "bool option"
  sr_duration :: int

text \<open>
  The properties a unit adds to the message it stores for a step, \<open>{type: "sub_step", step,
  result, timestamp}\<close>; the store overwrites \<open>timestamp\<close> with its own clock reading.
\<close>

datatype payload = SubStep string step_result

type_synonym agent_id = "nat \<times> string"

datatype summary_text =
    RuleSummary agent_id string nat nat nat
  | LLMText string

record memoryUsage =
  mu_shortTerm :: nat
  mu_mediumTerm :: nat
  mu_totalMessages :: nat

record exec_success =
  es_subAgentId :: agent_id
  es_parentId :: string
  es_task :: string
  es_steps :: "jsval list"
  es_results :: "step_result list"
  es_summary :: summary_text
  es_duration :: int
  es_memoryUsage :: memoryUsage

record exec_failure =
  ef_subAgentId :: agent_id
  ef_parentId :: string
  ef_task :: string
  ef_error :: errmsg
  ef_duration :: int

text \<open>The value \<open>execute\<close> resolves with: \<open>success: true\<close> or \<open>success: false\<close>.\<close>

datatype exec_result = Success exec_success | Failure exec_failure

datatype event =
    EvStart agent_id string
  | EvComplete exec_success
  | EvError exec_failure
  | EvAborted agent_id

subsection \<open>The unit and its environment\<close>

text \<open>
  \<open>emitted\<close> and \<open>invoked\<close> are logs kept for the properties below: the events the unit has
  emitted, and the calls of \<open>toolDef.execute\<close> it has made (step number, tool, parameters).
\<close>

record subagent =
  sa_id :: agent_id
  parentId :: string
  task :: string
  description :: string
  hasLLM :: bool
  memory :: "payload memory"
  registry :: registry
  startTime :: nat
  isRunning :: bool
  aborted :: bool
  duration :: "int option"
  lastError :: "exec_failure option"
  emitted :: "event list"
  invoked :: "(nat \<times> string \<times> params) list"

record taskInfo =
  ti_parentId :: "string option"
  ti_task :: "string option"
  ti_description :: "string option"

record parentConfig =
  pc_maxSubAgents :: "int option"
  pc_enableLLM :: bool

datatype analysis = AnalysisNullish | Analysis "jsval list option"

datatype 'a llm_outcome = LReturns 'a | LThrows thrown

text \<open>
  Everything outside the unit that one run of \<open>execute\<close> meets: clock readings, random
  suffixes, the answers of the language-model service, the outcome of the tool call of each
  step, and the moments at which somebody calls \<open>abort()\<close> on the unit while it is suspended
  in an \<open>await\<close>. The three string heuristics \<open>selectToolForStep\<close>, \<open>parseStepParams\<close> and
  \<open>ruleBasedDecomposition\<close> match keywords outside the modelled character range; they are
  taken as functions.
\<close>

record env =
  clockStart :: nat
  clockStep :: "nat \<Rightarrow> nat"
  clockEnd :: nat
  rndStep :: "nat \<Rightarrow> string"
  selectToolForStep :: "string \<Rightarrow> string"
  parseStepParams :: "string \<Rightarrow> params"
  ruleBasedDecomposition :: "string \<Rightarrow> string list"
  understandTask :: "analysis llm_outcome"
  callLLM :: "string llm_outcome"
  toolRun :: "nat \<Rightarrow> tool_outcome"
  abortDuringDecompose :: bool
  abortDuringStep :: "nat \<Rightarrow> bool"
  abortDuringSummary :: bool

definition newSubAgent :: "nat \<Rightarrow> string \<Rightarrow> parentConfig \<Rightarrow> taskInfo \<Rightarrow> subagent" where
  "newSubAgent now rnd cfg info =
     \<lparr> sa_id = (now, rnd),
       parentId = orElse (ti_parentId info) ''root'',
       task = orElse (ti_task info) [],
       description = orElse (ti_description info) [],
       hasLLM = pc_enableLLM cfg,
       memory = newMemory now,
       registry = newToolRegistry,
       startTime = now, isRunning = False, aborted = False,
       duration = None, lastError = None, emitted = [], invoked = [] \<rparr>"

subsection \<open>Events and abort\<close>

text \<open>\<open>emit\<close> with the unit's own handlers of \<open>setupEventHandlers\<close>.\<close>

definition emitStart :: "nat \<Rightarrow> string \<Rightarrow> subagent \<Rightarrow> subagent" where
  "emitStart now subTask a =
     a\<lparr> startTime := now, isRunning := True,
        emitted := emitted a @ [EvStart (sa_id a) subTask] \<rparr>"

definition emitComplete :: "nat \<Rightarrow> exec_success \<Rightarrow> subagent \<Rightarrow> subagent" where
  "emitComplete now r a =
     a\<lparr> isRunning := False, duration := Some (int now - int (startTime a)),
        emitted := emitted a @ [EvComplete r] \<rparr>"

definition emitError :: "exec_failure \<Rightarrow> subagent \<Rightarrow> subagent" where
  "emitError r a =
     a\<lparr> isRunning := False, lastError := Some r, emitted := emitted a @ [EvError r] \<rparr>"

definition abort :: "subagent \<Rightarrow> subagent" where
  "abort a = a\<lparr> aborted := True, isRunning := False,
               emitted := emitted a @ [EvAborted (sa_id a)] \<rparr>"

text \<open>A call of \<open>abort()\<close> from outside while the unit is suspended.\<close>

definition arrive :: "bool \<Rightarrow> subagent \<Rightarrow> subagent" where
  "arrive requested a = (if requested then abort a else a)"

subsection \<open>The pipeline\<close>

definition decomposeTask :: "env \<Rightarrow> string \<Rightarrow> subagent \<Rightarrow> thrown + jsval list" where
  "decomposeTask e t a =
     (let ruleBased = Inr (map JStr (ruleBasedDecomposition e t))
      in if hasLLM a then
           (case understandTask e of
              LReturns AnalysisNullish \<Rightarrow> ruleBased
            | LReturns (Analysis None) \<Rightarrow> Inr [JStr t]
            | LReturns (Analysis (Some steps)) \<Rightarrow> Inr steps
            | LThrows th \<Rightarrow> (case messageOf th of Inl err \<Rightarrow> Inl err | Inr msg \<Rightarrow> ruleBased))
         else ruleBased)"

definition failedStep :: "env \<Rightarrow> subagent \<Rightarrow> string \<Rightarrow> string \<Rightarrow> nat \<Rightarrow> nat \<Rightarrow> errmsg \<Rightarrow> step_result" where
  "failedStep e a step toolName n ntotal msg =
     \<lparr> stepNumber = n, totalSteps = ntotal, sr_step = step, sr_tool = toolName,
       sr_params = None, sr_result = None, sr_error = Some msg, sr_success = Some False,
       sr_duration = int (clockStep e n) - int (startTime a) \<rparr>"

text \<open>
  \<open>executeStep\<close>. A step that is not a string makes \<open>step.toLowerCase()\<close> throw before the
  \<open>try\<close> block is entered. Inside the block a failed validation, a tool that throws and a
  tool that returns no object all end in the \<open>catch\<close>, which reads \<open>error.message\<close>.
\<close>

definition executeStep :: "env \<Rightarrow> subagent \<Rightarrow> jsval \<Rightarrow> nat \<Rightarrow> nat \<Rightarrow> (thrown + step_result) \<times> subagent" where
  "executeStep e a step n ntotal =
     (case step of
        JStr st \<Rightarrow>
          (let toolName = selectToolForStep e st; ps = parseStepParams e st
           in case validateParams (registry a) toolName ps of
                Invalid verr \<Rightarrow> (Inr (failedStep e a st toolName n ntotal (ValidationFailed verr)), a)
              | Valid \<Rightarrow>
                  (let a' = a\<lparr> invoked := invoked a @ [(n, toolName, ps)] \<rparr>
                   in case toolRun e n of
                        Returns None \<Rightarrow> (Inr (failedStep e a st toolName n ntotal TypeErrorMsg), a')
                      | Returns (Some r) \<Rightarrow>
                          (Inr \<lparr> stepNumber = n, totalSteps = ntotal, sr_step = st, sr_tool = toolName,
                                 sr_params = Some ps, sr_result = Some r, sr_error = None,
                                 sr_success = tr_success r,
                                 sr_duration = int (clockStep e n) - int (startTime a) \<rparr>, a')
                      | Throws th \<Rightarrow>
                          (case messageOf th of
                             Inl err \<Rightarrow> (Inl err, a')
                           | Inr msg \<Rightarrow> (Inr (failedStep e a st toolName n ntotal msg), a'))))
      | _ \<Rightarrow> (Inl (Err TypeErrorMsg), a))"

definition addToShortTerm :: "nat \<Rightarrow> string \<Rightarrow> payload \<Rightarrow> payload memory \<Rightarrow> payload memory" where
  "addToShortTerm now rnd p mem =
     addMessage now rnd
       \<lparr> raw_content = None, raw_role = None, raw_type = Some ''sub_step'', raw_extra = p \<rparr> mem"

text \<open>
  The loop of \<open>executeSteps\<close>: \<open>i\<close> is the loop index, \<open>results\<close> the array built so far.
  The abort signal is read at the top of every iteration.
\<close>

fun executeSteps :: "env \<Rightarrow> nat \<Rightarrow> nat \<Rightarrow> jsval list \<Rightarrow> subagent \<Rightarrow> step_result list \<Rightarrow> (thrown + step_result list) \<times> subagent" where
  "executeSteps e i ntotal [] a results = (Inr results, a)"
| "executeSteps e i ntotal (step # rest) a results =
     (if aborted a then (Inl (Err StepsInterrupted), a)
      else
        (case executeStep e a step (i + 1) ntotal of
           (Inl err, a1) \<Rightarrow> (Inl err, arrive (abortDuringStep e (i + 1)) a1)
         | (Inr r, a1) \<Rightarrow>
             (let a2 = arrive (abortDuringStep e (i + 1)) a1;
                  a3 = a2\<lparr> memory := addToShortTerm (clockStep e (i + 1)) (rndStep e (i + 1))
                                       (SubStep (sr_step r) r) (memory a2) \<rparr>
              in executeSteps e (i + 1) ntotal rest a3 (results @ [r]))))"

definition summarizeResults :: "env \<Rightarrow> step_result list \<Rightarrow> subagent \<Rightarrow> summary_text" where
  "summarizeResults e results a =
     (let successful = filter (\<lambda>r. sr_success r = Some True) results;
          failed = filter (\<lambda>r. sr_success r \<noteq> Some True) results;
          summary = RuleSummary (sa_id a) (task a) (length results) (length successful)
                      (length failed)
      in if hasLLM a then
           (case callLLM e of
              LReturns txt \<Rightarrow> if txt = [] then summary else LLMText txt
            | LThrows th \<Rightarrow> summary)
         else summary)"

definition getMemoryUsage :: "subagent \<Rightarrow> memoryUsage" where
  "getMemoryUsage a =
     \<lparr> mu_shortTerm = length (shortTerm (memory a)),
       mu_mediumTerm = length (mediumTerm (memory a)),
       mu_totalMessages = length (shortTerm (memory a)) + length (mediumTerm (memory a)) \<rparr>"

text \<open>The \<open>try\<close> block of \<open>execute\<close>: \<open>Inl\<close> is the value it throws.\<close>

definition executeBody :: "env \<Rightarrow> string \<Rightarrow> subagent \<Rightarrow> (thrown + exec_success) \<times> subagent" where
  "executeBody e subTask a0 =
     (let a1 = emitStart (clockStart e) subTask a0
      in if aborted a1 then (Inl (Err ExecInterrupted), a1)
         else
           (case decomposeTask e subTask a1 of
              Inl err \<Rightarrow> (Inl err, arrive (abortDuringDecompose e) a1)
            | Inr steps \<Rightarrow>
                (case executeSteps e 0 (length steps) steps
                        (arrive (abortDuringDecompose e) a1) [] of
                   (Inl err, a2) \<Rightarrow> (Inl err, a2)
                 | (Inr results, a2) \<Rightarrow>
                     (let summary = summarizeResults e results a2;
                          a3 = arrive (abortDuringSummary e) a2;
                          finalResult =
                            \<lparr> es_subAgentId = sa_id a3, es_parentId = parentId a3,
                              es_task = subTask, es_steps = steps, es_results = results,
                              es_summary = summary,
                              es_duration = int (clockEnd e) - int (startTime a3),
                              es_memoryUsage = getMemoryUsage a3 \<rparr>
                      in (Inr finalResult, emitComplete (clockEnd e) finalResult a3)))))"

text \<open>
  \<open>execute\<close>: the \<open>try\<close> block and its \<open>catch\<close>. \<open>Inl\<close> is a rejected promise, \<open>Inr\<close> the
  value the promise is fulfilled with.
\<close>

definition execute :: "env \<Rightarrow> string \<Rightarrow> subagent \<Rightarrow> (thrown + exec_result) \<times> subagent" where
  "execute e subTask a0 =
     (case executeBody e subTask a0 of
        (Inr finalResult, a) \<Rightarrow> (Inr (Success finalResult), a)
      | (Inl th, a) \<Rightarrow>
          (case messageOf th of
             Inl err \<Rightarrow> (Inl err, a)
           | Inr msg \<Rightarrow>
               (let errorResult =
                      \<lparr> ef_subAgentId = sa_id a, ef_parentId = parentId a, ef_task = subTask,
                        ef_error = msg, ef_duration = int (clockEnd e) - int (startTime a) \<rparr>
                in (Inr (Failure errorResult), emitError errorResult a))))"

section \<open>The execution manager (class SubAgentManager)\<close>

text \<open>
  \<open>subAgents\<close> holds the keys of the JavaScript \<open>Map\<close> in insertion order; \<open>units\<close> is the
  heap of the unit objects the manager has created, which the callers of \<open>createSubAgent\<close>
  go on holding after the \<open>Map\<close> has dropped them. Generated ids are taken to be distinct.
\<close>

record manager =
  mgr_config :: parentConfig
  subAgents :: "agent_id list"
  maxSubAgents :: int
  activeSubAgents :: int
  units :: "agent_id \<rightharpoonup> subagent"

datatype mgr_error = CapacityExceeded int

datatype 'a settled = Fulfilled 'a | Rejected thrown

text \<open>\<open>parentConfig.maxSubAgents || 10\<close>\<close>

definition newManager :: "parentConfig \<Rightarrow> manager" where
  "newManager cfg =
     \<lparr> mgr_config = cfg, subAgents = [],
       maxSubAgents = (case pc_maxSubAgents cfg of None \<Rightarrow> 10 | Some n \<Rightarrow> if n = 0 then 10 else n),
       activeSubAgents = 0, units = Map.empty \<rparr>"

text \<open>\<open>Map.set\<close>: a key that is present keeps its place.\<close>

definition mapSet :: "agent_id \<Rightarrow> agent_id list \<Rightarrow> agent_id list" where
  "mapSet sid keys = (if sid \<in> set keys then keys else keys @ [sid])"

definition createSubAgent :: "nat \<Rightarrow> string \<Rightarrow> taskInfo \<Rightarrow> manager \<Rightarrow> mgr_error + subagent \<times> manager" where
  "createSubAgent now rnd info m =
     (if activeSubAgents m \<ge> maxSubAgents m then Inl (CapacityExceeded (maxSubAgents m))
      else
        (let subAgent = newSubAgent now rnd (mgr_config m) info
         in Inr (subAgent,
                 m\<lparr> subAgents := mapSet (sa_id subAgent) (subAgents m),
                    activeSubAgents := activeSubAgents m + 1,
                    units := (units m)(sa_id subAgent \<mapsto> subAgent) \<rparr>)))"

text \<open>
  The listeners \<open>createSubAgent\<close> registers on the unit \<open>sid\<close>: \<open>start\<close> is passed on,
  each of \<open>complete\<close>, \<open>error\<close> and \<open>aborted\<close> deletes the unit from the \<open>Map\<close> and
  decrements the counter.
\<close>

fun handleEvent :: "agent_id \<Rightarrow> manager \<Rightarrow> event \<Rightarrow> manager" where
  "handleEvent sid m (EvStart _ _) = m"
| "handleEvent sid m _ =
     m\<lparr> subAgents := removeAll sid (subAgents m), activeSubAgents := activeSubAgents m - 1 \<rparr>"

definition notify :: "agent_id \<Rightarrow> event list \<Rightarrow> manager \<Rightarrow> manager" where
  "notify sid evs m = foldl (handleEvent sid) m evs"

text \<open>\<open>abort()\<close> called on the unit \<open>sid\<close>, by \<open>abortAll\<close> or by whoever holds the unit.\<close>

definition abortUnit :: "agent_id \<Rightarrow> manager \<Rightarrow> manager" where
  "abortUnit sid m =
     (case units m sid of
        None \<Rightarrow> m
      | Some a \<Rightarrow> notify sid [EvAborted sid] (m\<lparr> units := (units m)(sid \<mapsto> abort a) \<rparr>))"

definition abortAll :: "manager \<Rightarrow> manager" where
  "abortAll m = foldl (\<lambda>m' sid. abortUnit sid m') m (subAgents m)"

text \<open>
  The unit \<open>a'\<close> has run \<open>execute\<close> from the state \<open>a\<close>; the manager has handled the events
  emitted during the run.
\<close>

definition settleUnit :: "subagent \<Rightarrow> subagent \<Rightarrow> manager \<Rightarrow> manager" where
  "settleUnit a a' m =
     notify (sa_id a') (drop (length (emitted a)) (emitted a'))
       (m\<lparr> units := (units m)(sa_id a' \<mapsto> a') \<rparr>)"

text \<open>\<open>execute(subTask)\<close> called on the unit \<open>sid\<close>.\<close>

definition executeUnit :: "env \<Rightarrow> string \<Rightarrow> agent_id \<Rightarrow> manager \<Rightarrow> (thrown + exec_result) option \<times> manager" where
  "executeUnit e subTask sid m =
     (case units m sid of
        None \<Rightarrow> (None, m)
      | Some a \<Rightarrow> (case execute e subTask a of (r, a') \<Rightarrow> (Some r, settleUnit a a' m)))"

text \<open>The loop of \<open>createSubAgents\<close>; a task whose creation throws is skipped.\<close>

fun createSubAgents :: "(nat \<times> string \<times> taskInfo) list \<Rightarrow> manager \<Rightarrow> subagent list \<times> manager" where
  "createSubAgents [] m = ([], m)"
| "createSubAgents ((now, rnd, info) # tasks) m =
     (case createSubAgent now rnd info m of
        Inl err \<Rightarrow> createSubAgents tasks m
      | Inr (subAgent, m') \<Rightarrow>
          (case createSubAgents tasks m' of (created, m'') \<Rightarrow> (subAgent # created, m'')))"

definition settle :: "(thrown + 'a) \<Rightarrow> 'a settled" where
  "settle r = (case r of Inl th \<Rightarrow> Rejected th | Inr v \<Rightarrow> Fulfilled v)"

text \<open>
  \<open>executeConcurrent\<close>: every created unit runs \<open>execute(subAgent.task)\<close>, the \<open>i\<close>-th one
  in the environment \<open>envs i\<close>, and \<open>Promise.allSettled\<close> keeps the order of the units.
  The units share no state, so the outcome of each run is a function of its own unit and
  environment, whatever the interleaving.
\<close>

definition executeConcurrent :: "(nat \<Rightarrow> env) \<Rightarrow> (nat \<times> string \<times> taskInfo) list \<Rightarrow> manager \<Rightarrow> exec_result settled list \<times> manager" where
  "executeConcurrent envs tasks m =
     (case createSubAgents tasks m of
        (created, m1) \<Rightarrow>
          (let runs = map (\<lambda>(i, a). (a, execute (envs i) (task a) a))
                        (zip [0..<length created] created)
           in (map (\<lambda>(a, r, a'). settle r) runs,
               foldl (\<lambda>m' (a, r, a'). settleUnit a a' m') m1 runs)))"

section \<open>Scenarios\<close>

text \<open>A call whose message is estimated at no more than 36 tokens.\<close>

definition smallCall :: "(nat \<times> string \<times> 'x raw_message) \<Rightarrow> bool" where
  "smallCall c = (case c of (now, rnd, m) \<Rightarrow> tokenCount (enrich now rnd m) \<le> 36)"

text \<open>A user message of seven words, estimated at ten tokens.\<close>

definition tenTokenCall :: "(nat \<times> string \<times> unit raw_message)" where
  "tenTokenCall = (5, ''k3'', \<lparr> raw_content = Some ''read the file and list its lines'',
       raw_role = Some ''user'', raw_type = None, raw_extra = () \<rparr>)"

text \<open>The full history of a sequence of calls: every message as \<open>addMessage\<close> stores it.\<close>

definition history :: "(nat \<times> string \<times> 'x raw_message) list \<Rightarrow> 'x message list" where
  "history calls = map (\<lambda>(now, rnd, m). enrich now rnd m) calls"

text \<open>A call whose message carries one of the four roles of a conversation.\<close>

definition llmCall :: "(nat \<times> string \<times> 'x raw_message) \<Rightarrow> bool" where
  "llmCall c = (case c of (now, rnd, m) \<Rightarrow> isLLMRole (role (enrich now rnd m)))"

definition tokensOf :: "'x message list \<Rightarrow> nat" where
  "tokensOf msgs = sum_list (map tokenCount msgs)"

text \<open>
  The messages of a history that \<open>addMessage\<close> also puts into \<open>llmMessages\<close>: those whose
  role is user, assistant, system or tool.
\<close>

definition llmHistory :: "(nat \<times> string \<times> 'x raw_message) list \<Rightarrow> 'x message list" where
  "llmHistory calls = filter (\<lambda>e. isLLMRole (role e)) (history calls)"

text \<open>One call whose message has the role \<open>admin\<close> and is estimated at 4 tokens.\<close>

definition adminCalls :: "(nat \<times> string \<times> unit raw_message) list" where
  "adminCalls =
     [(1, ''a'', \<lparr> raw_content = Some ''one two three'', raw_role = Some ''admin'',
                   raw_type = None, raw_extra = () \<rparr>)]"

text \<open>Three calls whose messages are estimated at 4, 3 and 2 tokens.\<close>

definition demoCalls :: "(nat \<times> string \<times> unit raw_message) list" where
  "demoCalls =
     [(1, ''a'', \<lparr> raw_content = Some ''one two three'', raw_role = Some ''user'',
                   raw_type = None, raw_extra = () \<rparr>),
      (2, ''b'', \<lparr> raw_content = Some ''four five'', raw_role = Some ''assistant'',
                   raw_type = None, raw_extra = () \<rparr>),
      (3, ''c'', \<lparr> raw_content = Some ''six'', raw_role = None,
                   raw_type = None, raw_extra = () \<rparr>)]"

text \<open>The keys a schema marks as required, in schema order.\<close>

definition requiredKeys :: "(string \<times> param_config) list \<Rightarrow> string list" where
  "requiredKeys sch = map fst (filter (\<lambda>(key, config). required config) sch)"

text \<open>
  A call of the \<open>edit\<close> tool that deletes the word \<open>draft\<close>: all three required keys are
  supplied, \<open>newString\<close> as the empty string.
\<close>

definition editParams :: params where
  "editParams = [''path'' \<mapsto> JStr ''notes.txt'', ''oldString'' \<mapsto> JStr ''draft'',
                 ''newString'' \<mapsto> JStr []]"

definition editTool :: tool where
  "editTool = \<lparr> tool_name = ''edit'',
       schema = [(''path'', req), (''oldString'', req), (''newString'', req)] \<rparr>"

definition bashTool :: tool where
  "bashTool = \<lparr> tool_name = ''bash'', schema = [(''command'', req)] \<rparr>"

text \<open>
  An environment whose tasks and steps are plain words without any keyword: as in the
  source, the rule-based decomposition makes such a task its own single step,
  \<open>selectToolForStep\<close> falls through to \<open>bash\<close>, and \<open>parseStepParams\<close> finds no
  parameter. A language-model service, where the unit has one, decomposes every task into
  the steps \<open>ls\<close> and \<open>pwd\<close>. Every tool call succeeds and nobody calls \<open>abort()\<close>.
\<close>

definition plainEnv :: env where
  "plainEnv =
     \<lparr> clockStart = 10, clockStep = (\<lambda>n. 10 + n), clockEnd = 20, rndStep = (\<lambda>n. ''r''),
       selectToolForStep = (\<lambda>st. ''bash''), parseStepParams = (\<lambda>st. Map.empty),
       ruleBasedDecomposition = (\<lambda>t. [t]),
       understandTask = LReturns (Analysis (Some [JStr ''ls'', JStr ''pwd''])),
       callLLM = LReturns ''done'',
       toolRun = (\<lambda>n. Returns (Some \<lparr> tr_success = Some True, tr_error = None,
                                        tr_output = Some ''ok'' \<rparr>)),
       abortDuringDecompose = False, abortDuringStep = (\<lambda>n. False),
       abortDuringSummary = False \<rparr>"

definition plainUnit :: subagent where
  "plainUnit = newSubAgent 1 ''u'' \<lparr> pc_maxSubAgents = None, pc_enableLLM = False \<rparr>
                 \<lparr> ti_parentId = None, ti_task = Some ''ls'', ti_description = None \<rparr>"

text \<open>
  An environment in which every step stands for the request to run the command it names:
  the heuristics choose the tool \<open>bash\<close> with the step as its \<open>command\<close>. Somebody calls
  \<open>abort()\<close> on the unit while its first step is in flight.
\<close>

definition abortingEnv :: env where
  "abortingEnv = plainEnv\<lparr> parseStepParams := (\<lambda>st. [''command'' \<mapsto> JStr st]),
                           abortDuringStep := (\<lambda>n. n = 1) \<rparr>"

text \<open>A unit with a language-model service, which decomposes the task into two steps.\<close>

definition llmUnit :: subagent where
  "llmUnit = newSubAgent 1 ''u'' \<lparr> pc_maxSubAgents = None, pc_enableLLM = True \<rparr>
               \<lparr> ti_parentId = None, ti_task = Some ''ls and pwd'', ti_description = None \<rparr>"

text \<open>
  The operations a caller performs on a manager and on the units it has handed out, and a
  run of a sequence of them. A \<open>createSubAgent\<close> that throws leaves the manager as it is.
\<close>

datatype mgr_op =
    Create nat string taskInfo
  | Execute env string agent_id
  | Abort agent_id
  | AbortAll

fun applyOp :: "manager \<Rightarrow> mgr_op \<Rightarrow> manager" where
  "applyOp m (Create now rnd info) =
     (case createSubAgent now rnd info m of Inl err \<Rightarrow> m | Inr (subAgent, m') \<Rightarrow> m')"
| "applyOp m (Execute e subTask sid) = snd (executeUnit e subTask sid m)"
| "applyOp m (Abort sid) = abortUnit sid m"
| "applyOp m AbortAll = abortAll m"

definition runOps :: "mgr_op list \<Rightarrow> manager \<Rightarrow> manager" where
  "runOps ops m = foldl applyOp m ops"

text \<open>
  A manager limited to one unit. The caller creates a unit, aborts it, lets it run (the run
  ends at once with the interruption error) and then creates two more units.
\<close>

definition oneUnitConfig :: parentConfig where
  "oneUnitConfig = \<lparr> pc_maxSubAgents = Some 1, pc_enableLLM = False \<rparr>"

definition lsTask :: taskInfo where
  "lsTask = \<lparr> ti_parentId = None, ti_task = Some ''ls'', ti_description = None \<rparr>"

definition overbookOps :: "mgr_op list" where
  "overbookOps =
     [Create 1 ''a'' lsTask, Abort (1, ''a''), Execute plainEnv ''ls'' (1, ''a''),
      Create 2 ''b'' lsTask, Create 3 ''c'' lsTask]"

text \<open>The unit \<open>createSubAgent\<close> builds for a task, and the tasks a manager has room for.\<close>

definition unitOf :: "parentConfig \<Rightarrow> (nat \<times> string \<times> taskInfo) \<Rightarrow> subagent" where
  "unitOf cfg c = (case c of (now, rnd, info) \<Rightarrow> newSubAgent now rnd cfg info)"

definition admitted :: "manager \<Rightarrow> (nat \<times> string \<times> taskInfo) list \<Rightarrow> (nat \<times> string \<times> taskInfo) list" where
  "admitted m tasks = take (nat (maxSubAgents m - activeSubAgents m)) tasks"

definition twoUnitManager :: manager where
  "twoUnitManager = newManager \<lparr> pc_maxSubAgents = Some 2, pc_enableLLM = False \<rparr>"

definition threeTasks :: "(nat \<times> string \<times> taskInfo) list" where
  "threeTasks = [(1, ''a'', lsTask), (2, ''b'', lsTask), (3, ''c'', lsTask)]"

section \<open>Properties\<close>

subsection \<open>The token counter\<close>

lemma foldl_tokenCount_acc:
  "foldl (\<lambda>sum msg. sum + tokenCount msg) a xs = a + sum_list (map tokenCount xs)"
  by (induction xs arbitrary: a) simp_all

lemma compressMemory_totalTokens:
  "totalTokens (contextStats (compressMemory now s)) =
     sum_list (map tokenCount (shortTerm (compressMemory now s)))"
  by (simp add: compressMemory_def Let_def foldl_tokenCount_acc)

lemma pushMessage_shortTerm: "shortTerm (pushMessage e s) = shortTerm s @ [e]"
  by (simp add: pushMessage_def Let_def)

lemma updateContextStats_totalTokens:
  "totalTokens (updateContextStats e st) = totalTokens st + tokenCount e"
  by (simp add: updateContextStats_def Let_def)

lemma pushMessage_totalTokens:
  "totalTokens (contextStats (pushMessage e s)) = totalTokens (contextStats s) + tokenCount e"
  by (simp add: pushMessage_def Let_def updateContextStats_totalTokens)

lemma tokensInSync_newMemory: "tokensInSync (newMemory now)"
  by (simp add: tokensInSync_def newMemory_def)

lemma tokensInSync_addMessage:
  "tokensInSync s \<Longrightarrow> tokensInSync (addMessage now rnd m s)"
  by (simp add: tokensInSync_def addMessage_def Let_def compressMemory_totalTokens
      pushMessage_shortTerm pushMessage_totalTokens)

lemma tokensInSync_addMessages:
  "tokensInSync s \<Longrightarrow> tokensInSync (addMessages calls s)"
  by (induction calls s rule: addMessages.induct) (simp_all add: tokensInSync_addMessage)

text \<open>
  C1. After any sequence of \<open>addMessage\<close> calls on a freshly constructed store, with all the
  compressions those calls trigger, \<open>contextStats.totalTokens\<close> is the sum of the
  \<open>tokenCount\<close> of the messages held in \<open>shortTerm\<close>.
\<close>

theorem totalTokens_matches_shortTerm:
  "totalTokens (contextStats (addMessages calls (newMemory t0))) =
     sum_list (map tokenCount (shortTerm (addMessages calls (newMemory t0))))"
  using tokensInSync_addMessages[OF tokensInSync_newMemory, of calls t0]
  by (simp add: tokensInSync_def)

subsection \<open>When compression is triggered\<close>

lemma pushMessage_mediumTerm: "mediumTerm (pushMessage e s) = mediumTerm s"
  by (simp add: pushMessage_def Let_def)

lemma pushMessage_compressionConfig: "compressionConfig (pushMessage e s) = compressionConfig s"
  by (simp add: pushMessage_def Let_def)

lemma updateContextStats_compressionCount:
  "compressionCount (updateContextStats e st) = compressionCount st"
  by (simp add: updateContextStats_def Let_def)

lemma pushMessage_compressionCount:
  "compressionCount (contextStats (pushMessage e s)) = compressionCount (contextStats s)"
  by (simp add: pushMessage_def Let_def updateContextStats_compressionCount)

lemma shouldCompress_pushMessage:
  "shouldCompress (pushMessage e s) \<longleftrightarrow>
     totalTokens (contextStats s) + tokenCount e > tokenThreshold (compressionConfig s) \<or>
     length (shortTerm s) + 1 > messageThreshold (compressionConfig s)"
  by (simp add: shouldCompress_def pushMessage_shortTerm pushMessage_totalTokens
      pushMessage_compressionConfig)

lemma compressMemory_mediumTerm_length:
  "length (mediumTerm (compressMemory now s)) = length (mediumTerm s) + 1"
  by (simp add: compressMemory_def Let_def)

lemma compressMemory_compressionCount:
  "compressionCount (contextStats (compressMemory now s)) = compressionCount (contextStats s) + 1"
  by (simp add: compressMemory_def Let_def)

lemma compressMemory_compressionConfig:
  "compressionConfig (compressMemory now s) = compressionConfig s"
  by (simp add: compressMemory_def Let_def)

lemma addMessage_compressionConfig:
  "compressionConfig (addMessage now rnd m s) = compressionConfig s"
  by (simp add: addMessage_def Let_def compressMemory_compressionConfig
      pushMessage_compressionConfig)

lemma addMessages_compressionConfig:
  "compressionConfig (addMessages calls s) = compressionConfig s"
  by (induction calls s rule: addMessages.induct) (simp_all add: addMessage_compressionConfig)

text \<open>
  C4. An \<open>addMessage\<close> call compresses (one more entry in \<open>mediumTerm\<close>, one more in
  \<open>compressionCount\<close>) exactly when, after the insert, \<open>totalTokens\<close> exceeds the token
  threshold or \<open>shortTerm.length\<close> exceeds the message threshold; otherwise it does not.
  On a store built by the constructor and \<open>addMessage\<close> calls the thresholds are 3680
  (0.92 of 4000) and 100.
\<close>

theorem compression_triggered_iff_over_threshold:
  "length (mediumTerm (addMessage now rnd m s)) =
     length (mediumTerm s) +
       (if totalTokens (contextStats s) + tokenCount (enrich now rnd m)
             > tokenThreshold (compressionConfig s)
           \<or> length (shortTerm s) + 1 > messageThreshold (compressionConfig s)
        then 1 else 0)
   \<and> compressionCount (contextStats (addMessage now rnd m s)) =
     compressionCount (contextStats s) +
       (if totalTokens (contextStats s) + tokenCount (enrich now rnd m)
             > tokenThreshold (compressionConfig s)
           \<or> length (shortTerm s) + 1 > messageThreshold (compressionConfig s)
        then 1 else 0)
   \<and> tokenThreshold (compressionConfig (addMessages calls (newMemory t0))) = 3680
   \<and> messageThreshold (compressionConfig (addMessages calls (newMemory t0))) = 100"
proof -
  let ?s' = "pushMessage (enrich now rnd m) s"
  have step: "addMessage now rnd m s = (if shouldCompress ?s' then compressMemory now ?s' else ?s')"
    by (simp add: addMessage_def Let_def)
  have a: "length (mediumTerm (addMessage now rnd m s)) =
      length (mediumTerm s) + (if shouldCompress ?s' then 1 else 0)"
    by (simp add: step compressMemory_mediumTerm_length pushMessage_mediumTerm)
  have b: "compressionCount (contextStats (addMessage now rnd m s)) =
      compressionCount (contextStats s) + (if shouldCompress ?s' then 1 else 0)"
    by (simp add: step compressMemory_compressionCount pushMessage_compressionCount)
  have c: "compressionConfig (addMessages calls (newMemory t0)) =
      \<lparr> tokenThreshold = 3680, messageThreshold = 100, maxContextSize = 4000 \<rparr>"
    by (simp add: addMessages_compressionConfig newMemory_def)
  show ?thesis
    using a b by (simp add: c shouldCompress_pushMessage)
qed

subsection \<open>What a compression leaves behind\<close>

lemma sliceLast_length: "length (sliceLast n xs) = min n (length xs)"
  by (simp add: sliceLast_def)

lemma compressMemory_shortTerm: "shortTerm (compressMemory now s) = sliceLast 20 (shortTerm s)"
  by (simp add: compressMemory_def Let_def)

lemma compressMemory_mediumTerm:
  "mediumTerm (compressMemory now s) =
     mediumTerm s @ [\<lparr> c_summary = generateStructuredSummary now s, c_timestamp = now,
                       originalCount = length (shortTerm s),
                       originalTokens = totalTokens (contextStats s) \<rparr>]"
  by (simp add: compressMemory_def Let_def)

lemma addMessages_append:
  "addMessages (xs @ ys) s = addMessages ys (addMessages xs s)"
  by (induction xs s rule: addMessages.induct) simp_all

lemma addMessage_quiet:
  assumes "totalTokens (contextStats s) + tokenCount (enrich now rnd m)
             \<le> tokenThreshold (compressionConfig s)"
    and "length (shortTerm s) < messageThreshold (compressionConfig s)"
  shows "addMessage now rnd m s = pushMessage (enrich now rnd m) s"
  using assms by (simp add: addMessage_def Let_def shouldCompress_pushMessage)

lemma addMessages_quiet:
  assumes "list_all smallCall calls"
    and "compressionConfig s =
           \<lparr> tokenThreshold = 3680, messageThreshold = 100, maxContextSize = 4000 \<rparr>"
    and "length (shortTerm s) + length calls \<le> 100"
    and "totalTokens (contextStats s) + 36 * length calls \<le> 3680"
  shows "mediumTerm (addMessages calls s) = mediumTerm s
       \<and> length (shortTerm (addMessages calls s)) = length (shortTerm s) + length calls
       \<and> totalTokens (contextStats (addMessages calls s))
           \<le> totalTokens (contextStats s) + 36 * length calls"
  using assms
proof (induction calls s rule: addMessages.induct)
  case (1 s)
  then show ?case by simp
next
  case (2 now rnd m calls s)
  let ?e = "enrich now rnd m"
  have small: "tokenCount ?e \<le> 36" using 2(2) by (simp add: smallCall_def)
  have quiet: "addMessage now rnd m s = pushMessage ?e s"
    using 2(3,4,5) small by (intro addMessage_quiet) simp_all
  have "mediumTerm (addMessages calls (pushMessage ?e s)) = mediumTerm (pushMessage ?e s)
       \<and> length (shortTerm (addMessages calls (pushMessage ?e s)))
           = length (shortTerm (pushMessage ?e s)) + length calls
       \<and> totalTokens (contextStats (addMessages calls (pushMessage ?e s)))
           \<le> totalTokens (contextStats (pushMessage ?e s)) + 36 * length calls"
    using 2(1)[unfolded quiet] 2(2,3,4,5) small
    by (simp add: pushMessage_compressionConfig pushMessage_shortTerm pushMessage_totalTokens)
  then show ?case
    using small
    by (simp add: quiet pushMessage_mediumTerm pushMessage_shortTerm pushMessage_totalTokens)
qed

lemma one_compression_after_101:
  assumes len: "length calls = 101" and small: "list_all smallCall calls"
  shows "length (mediumTerm (addMessages calls (newMemory t0))) = 1
       \<and> length (shortTerm (addMessages calls (newMemory t0))) = 20"
proof -
  obtain xs c where calls: "calls = xs @ [c]" and lxs: "length xs = 100"
    using len by (cases calls rule: rev_cases) auto
  obtain now rnd m where c: "c = (now, rnd, m)" by (cases c) auto
  let ?s = "addMessages xs (newMemory t0 :: 'a memory)"
  have sm: "list_all smallCall xs" using small calls by simp
  have q: "mediumTerm ?s = [] \<and> length (shortTerm ?s) = 100
         \<and> totalTokens (contextStats ?s) \<le> 3600"
    using addMessages_quiet[OF sm, of "newMemory t0"] lxs by (simp add: newMemory_def)
  have cfg: "compressionConfig ?s =
      \<lparr> tokenThreshold = 3680, messageThreshold = 100, maxContextSize = 4000 \<rparr>"
    by (simp add: addMessages_compressionConfig newMemory_def)
  have trig: "shouldCompress (pushMessage (enrich now rnd m) ?s)"
    using q by (simp add: shouldCompress_pushMessage cfg)
  have last: "addMessages calls (newMemory t0) =
      compressMemory now (pushMessage (enrich now rnd m) ?s)"
    using trig by (simp add: calls c addMessages_append addMessage_def Let_def)
  show ?thesis
    using q by (simp add: last compressMemory_mediumTerm compressMemory_shortTerm
        sliceLast_length pushMessage_mediumTerm pushMessage_shortTerm)
qed

lemma tenTokenCall_tokens: "tokenCount (enrich 5 ''k3'' (snd (snd tenTokenCall))) = 10"
  by (simp add: tenTokenCall_def enrich_def estimateTokens_def orElse_def splitLength_def
      isSpace_def)

text \<open>
  C5. Every \<open>compressMemory\<close> call appends exactly one summary entry, built from the current
  \<open>shortTerm\<close>, to \<open>mediumTerm\<close> and leaves in \<open>shortTerm\<close> its last 20 messages, so at
  most 20. In particular, 101 messages of at most 36 tokens each (so the token threshold
  is never reached) added to a fresh store leave exactly one entry in \<open>mediumTerm\<close> and
  20 messages in \<open>shortTerm\<close>.
\<close>

theorem compress_one_summary_and_retention:
  "mediumTerm (compressMemory now s) =
     mediumTerm s @ [\<lparr> c_summary = generateStructuredSummary now s, c_timestamp = now,
                       originalCount = length (shortTerm s),
                       originalTokens = totalTokens (contextStats s) \<rparr>]
   \<and> shortTerm (compressMemory now s) = sliceLast 20 (shortTerm s)
   \<and> length (shortTerm (compressMemory now s)) \<le> 20
   \<and> (length calls = 101 \<and> list_all smallCall calls \<longrightarrow>
        length (mediumTerm (addMessages calls (newMemory t0))) = 1
      \<and> length (shortTerm (addMessages calls (newMemory t0))) = 20)"
  using one_compression_after_101[of calls t0]
  by (simp add: compressMemory_mediumTerm compressMemory_shortTerm sliceLast_length)

theorem compress_one_summary_and_retention_witness:
  "length (replicate 101 tenTokenCall) = 101 \<and> list_all smallCall (replicate 101 tenTokenCall)
   \<and> length (mediumTerm (addMessages (replicate 101 tenTokenCall) (newMemory 0))) = 1
   \<and> length (shortTerm (addMessages (replicate 101 tenTokenCall) (newMemory 0))) = 20"
proof -
  have h: "length (replicate 101 tenTokenCall) = 101
         \<and> list_all smallCall (replicate 101 tenTokenCall)"
    using tenTokenCall_tokens by (simp add: list_all_iff smallCall_def tenTokenCall_def)
  show ?thesis
    using h compress_one_summary_and_retention
              [of 0 "newMemory 0 :: unit memory" "replicate 101 tenTokenCall" 0]
    by simp
qed

subsection \<open>The context window\<close>

lemma pushMessage_llmMessages:
  "llmMessages (pushMessage e s) = llmMessages s @ (if isLLMRole (role e) then [e] else [])"
  by (simp add: pushMessage_def Let_def)

lemma compressMemory_llmMessages: "llmMessages (compressMemory now s) = llmMessages s"
  by (simp add: compressMemory_def Let_def)

lemma addMessage_llmMessages:
  "llmMessages (addMessage now rnd m s) =
     llmMessages s @ (if isLLMRole (role (enrich now rnd m)) then [enrich now rnd m] else [])"
  by (simp add: addMessage_def Let_def compressMemory_llmMessages pushMessage_llmMessages)

lemma addMessages_llmMessages:
  "llmMessages (addMessages calls s) =
     llmMessages s @ filter (\<lambda>e. isLLMRole (role e)) (history calls)"
  by (induction calls s rule: addMessages.induct)
     (simp_all add: history_def addMessage_llmMessages)

lemma contextLoop_spec:
  assumes "cur \<le> maxT"
  shows "\<exists>k\<le>length older.
           contextLoop maxT older acc cur =
             (map project (rev (take k older)) @ acc, cur + tokensOf (take k older))
         \<and> cur + tokensOf (take k older) \<le> maxT
         \<and> (\<forall>j. k < j \<and> j \<le> length older \<longrightarrow> maxT < cur + tokensOf (take j older))"
  using assms
proof (induction older arbitrary: acc cur)
  case Nil
  then show ?case by (simp add: tokensOf_def)
next
  case (Cons msg older)
  show ?case
  proof (cases "cur + tokenCount msg > maxT")
    case True
    have "\<forall>j. 0 < j \<and> j \<le> length (msg # older) \<longrightarrow> maxT < cur + tokensOf (take j (msg # older))"
    proof (intro allI impI)
      fix j assume "0 < j \<and> j \<le> length (msg # older)"
      then obtain j' where "j = Suc j'" by (cases j) auto
      then show "maxT < cur + tokensOf (take j (msg # older))"
        using True by (simp add: tokensOf_def)
    qed
    with True Cons.prems show ?thesis
      by (intro exI[of _ 0]) (simp add: tokensOf_def)
  next
    case False
    then have le: "cur + tokenCount msg \<le> maxT" by simp
    from Cons.IH[OF le, of "project msg # acc"]
    obtain k where k: "k \<le> length older"
      "contextLoop maxT older (project msg # acc) (cur + tokenCount msg) =
         (map project (rev (take k older)) @ project msg # acc,
          cur + tokenCount msg + tokensOf (take k older))"
      "cur + tokenCount msg + tokensOf (take k older) \<le> maxT"
      "\<forall>j. k < j \<and> j \<le> length older \<longrightarrow> maxT < cur + tokenCount msg + tokensOf (take j older)"
      by blast
    have "\<forall>j. Suc k < j \<and> j \<le> length (msg # older) \<longrightarrow> maxT < cur + tokensOf (take j (msg # older))"
    proof (intro allI impI)
      fix j assume j: "Suc k < j \<and> j \<le> length (msg # older)"
      then obtain j' where j': "j = Suc j'" by (cases j) auto
      with j k(4) have "maxT < cur + tokenCount msg + tokensOf (take j' older)" by simp
      then show "maxT < cur + tokensOf (take j (msg # older))"
        by (simp add: j' tokensOf_def)
    qed
    with k False show ?thesis
      by (intro exI[of _ "Suc k"]) (simp add: tokensOf_def)
  qed
qed

lemma take_rev_sliceLast: "rev (take k (rev xs)) = sliceLast k xs"
  by (simp add: sliceLast_def take_rev)

lemma tokensOf_rev: "tokensOf (rev xs) = tokensOf xs"
  by (simp add: tokensOf_def rev_map[symmetric])

lemma tokensOf_take_rev: "tokensOf (take k (rev xs)) = tokensOf (sliceLast k xs)"
  using tokensOf_rev[of "take k (rev xs)"] by (simp add: take_rev_sliceLast)

lemma getLLMContext_spec:
  "\<exists>k\<le>length (llmMessages s).
      getLLMContext (Some maxT) s =
        \<lparr> ctx_messages = map project (sliceLast k (llmMessages s)),
          ctx_totalTokens = tokensOf (sliceLast k (llmMessages s)),
          ctx_messageCount = k \<rparr>
    \<and> tokensOf (sliceLast k (llmMessages s)) \<le> maxT
    \<and> (\<forall>j. k < j \<and> j \<le> length (llmMessages s) \<longrightarrow> maxT < tokensOf (sliceLast j (llmMessages s)))"
proof -
  from contextLoop_spec[of 0 maxT "rev (llmMessages s)" "[]"]
  obtain k where k: "k \<le> length (llmMessages s)"
    "contextLoop maxT (rev (llmMessages s)) [] 0 =
       (map project (rev (take k (rev (llmMessages s)))), tokensOf (take k (rev (llmMessages s))))"
    "tokensOf (take k (rev (llmMessages s))) \<le> maxT"
    "\<forall>j. k < j \<and> j \<le> length (llmMessages s) \<longrightarrow> maxT < tokensOf (take j (rev (llmMessages s)))"
    by auto
  have len: "length (sliceLast k (llmMessages s)) = k"
    using k(1) by (simp add: sliceLast_def)
  show ?thesis
    using k len
    by (intro exI[of _ k]) (simp add: getLLMContext_def take_rev_sliceLast tokensOf_take_rev)
qed

text \<open>
  C3, as stated, fails: a message with the role \<open>admin\<close> is stored in \<open>shortTerm\<close> but
  not in \<open>llmMessages\<close>. After that one message of 4 tokens, the window for the bound 100
  is empty, although the whole history is a longer suffix within the bound.
\<close>

theorem context_window_skips_unknown_role:
  "length (history adminCalls) = 1
   \<and> tokensOf (sliceLast 1 (history adminCalls)) = 4
   \<and> ctx_messages (getLLMContext (Some 100) (addMessages adminCalls (newMemory 0))) = []
   \<and> ctx_messageCount (getLLMContext (Some 100) (addMessages adminCalls (newMemory 0))) = 0"
  by (simp add: adminCalls_def history_def tokensOf_def sliceLast_def enrich_def
      estimateTokens_def orElse_def splitLength_def isSpace_def getLLMContext_def
      addMessage_def pushMessage_def Let_def isLLMRole_def shouldCompress_def
      updateContextStats_def newMemory_def)

lemma llmHistory_all:
  "list_all llmCall calls \<Longrightarrow> llmHistory calls = history calls"
  by (induction calls) (auto simp: llmHistory_def history_def llmCall_def)

lemma llmMessages_llmHistory:
  "llmMessages (addMessages calls (newMemory t0)) = llmHistory calls"
  by (simp add: addMessages_llmMessages newMemory_def llmHistory_def)

text \<open>
  C3, amended. For every bound \<open>maxTokens\<close> and every history of messages added to a fresh
  store, \<open>getLLMContext\<close> returns, in chronological order, the last \<open>messageCount\<close> of
  the messages of the full history whose role is user, assistant, system or tool (a missing
  role counts as system), and nothing from \<open>mediumTerm\<close>; their token estimates sum to
  \<open>totalTokens\<close>, which is at most \<open>maxTokens\<close>, and every longer suffix of these messages
  exceeds \<open>maxTokens\<close>. When every message of the history has one of the four roles, these
  messages are the full history. Compressions do not shorten the history the window is cut
  from.
\<close>

theorem context_window_is_longest_suffix_of_llm_history:
  "ctx_messageCount (getLLMContext (Some maxTokens) (addMessages calls (newMemory t0)))
           \<le> length (llmHistory calls)
       \<and> ctx_messages (getLLMContext (Some maxTokens) (addMessages calls (newMemory t0))) =
           map project (sliceLast
             (ctx_messageCount (getLLMContext (Some maxTokens) (addMessages calls (newMemory t0))))
             (llmHistory calls))
       \<and> ctx_totalTokens (getLLMContext (Some maxTokens) (addMessages calls (newMemory t0))) =
           tokensOf (sliceLast
             (ctx_messageCount (getLLMContext (Some maxTokens) (addMessages calls (newMemory t0))))
             (llmHistory calls))
       \<and> ctx_totalTokens (getLLMContext (Some maxTokens) (addMessages calls (newMemory t0)))
           \<le> maxTokens
       \<and> (\<forall>j. ctx_messageCount (getLLMContext (Some maxTokens) (addMessages calls (newMemory t0))) < j
              \<and> j \<le> length (llmHistory calls)
            \<longrightarrow> maxTokens < tokensOf (sliceLast j (llmHistory calls)))
       \<and> (list_all llmCall calls \<longrightarrow> llmHistory calls = history calls)"
proof -
  let ?s = "addMessages calls (newMemory t0)"
  have h: "llmMessages ?s = llmHistory calls"
    by (rule llmMessages_llmHistory)
  from getLLMContext_spec[of ?s maxTokens] obtain k where
    "k \<le> length (llmHistory calls)"
    "getLLMContext (Some maxTokens) ?s =
        \<lparr> ctx_messages = map project (sliceLast k (llmHistory calls)),
          ctx_totalTokens = tokensOf (sliceLast k (llmHistory calls)),
          ctx_messageCount = k \<rparr>"
    "tokensOf (sliceLast k (llmHistory calls)) \<le> maxTokens"
    "\<forall>j. k < j \<and> j \<le> length (llmHistory calls) \<longrightarrow> maxTokens < tokensOf (sliceLast j (llmHistory calls))"
    unfolding h by blast
  then show ?thesis using llmHistory_all[of calls] by simp
qed

lemma demoCalls_roles: "list_all llmCall demoCalls"
  by (simp add: demoCalls_def llmCall_def enrich_def orElse_def isLLMRole_def)

lemma demo_tokens: "map tokenCount (history demoCalls) = [4, 3, 2]"
  by (simp add: demoCalls_def history_def enrich_def estimateTokens_def orElse_def splitLength_def isSpace_def)

theorem context_window_is_longest_suffix_of_llm_history_witness:
  "list_all llmCall demoCalls
   \<and> llmHistory demoCalls = history demoCalls
   \<and> ctx_messageCount (getLLMContext (Some 5) (addMessages demoCalls (newMemory 0))) = 2
   \<and> ctx_messages (getLLMContext (Some 5) (addMessages demoCalls (newMemory 0))) =
       map project (sliceLast 2 (history demoCalls))
   \<and> ctx_totalTokens (getLLMContext (Some 5) (addMessages demoCalls (newMemory 0))) = 5"
proof -
  let ?r = "getLLMContext (Some 5) (addMessages demoCalls (newMemory 0))"
  note main = context_window_is_longest_suffix_of_llm_history[of 5 demoCalls 0]
  have full: "llmHistory demoCalls = history demoCalls"
    using main demoCalls_roles by blast
  have len: "length (history demoCalls) = 3" by (simp add: history_def demoCalls_def)
  have t2: "tokensOf (sliceLast 2 (history demoCalls)) = 5"
    by (simp add: tokensOf_def sliceLast_def len history_def demoCalls_def enrich_def
        estimateTokens_def orElse_def splitLength_def isSpace_def)
  have t3: "tokensOf (sliceLast 3 (history demoCalls)) = 9"
    using demo_tokens by (simp add: tokensOf_def sliceLast_def len)
  have le: "ctx_messageCount ?r \<le> 3" using main len by (simp add: full)
  have "\<not> ctx_messageCount ?r < 2"
  proof
    assume a: "ctx_messageCount ?r < 2"
    with main len have "5 < tokensOf (sliceLast 2 (history demoCalls))" by (simp add: full)
    with t2 show False by simp
  qed
  moreover have "ctx_messageCount ?r \<noteq> 3"
  proof
    assume a: "ctx_messageCount ?r = 3"
    with main have "tokensOf (sliceLast 3 (history demoCalls)) \<le> 5" by (simp add: full)
    with t3 show False by simp
  qed
  ultimately have c: "ctx_messageCount ?r = 2" using le by arith
  show ?thesis using main c t2 demoCalls_roles by (simp add: full)
qed

subsection \<open>Export and import\<close>

text \<open>
  C6. For every state of a store, importing what \<open>exportSession\<close> returns into a freshly
  constructed store reproduces \<open>shortTerm\<close>, \<open>mediumTerm\<close>, \<open>longTerm\<close> and the counters
  \<open>contextStats\<close> (and also \<open>llmMessages\<close> and \<open>messagesByRole\<close>).
\<close>

theorem export_import_round_trip:
  "shortTerm (importSession (exportSession now s) (newMemory t1)) = shortTerm s
   \<and> mediumTerm (importSession (exportSession now s) (newMemory t1)) = mediumTerm s
   \<and> longTerm (importSession (exportSession now s) (newMemory t1)) = longTerm s
   \<and> contextStats (importSession (exportSession now s) (newMemory t1)) = contextStats s
   \<and> llmMessages (importSession (exportSession now s) (newMemory t1)) = llmMessages s
   \<and> messagesByRole (importSession (exportSession now s) (newMemory t1)) = messagesByRole s"
  by (simp add: importSession_def exportSession_def orDefault_def spreadStats_def allStats_def)

subsection \<open>Parameter validation\<close>

lemma newToolRegistry_edit: "newToolRegistry ''edit'' = Some editTool"
  by (simp add: newToolRegistry_def initializeDefaultTools_def register_def editTool_def)

text \<open>
  C8, as stated, fails: every key the \<open>edit\<close> schema marks as required is present in
  \<open>editParams\<close>, and validation still rejects the call, naming \<open>newString\<close> as missing.
\<close>

theorem validateParams_rejects_present_empty_string:
  "newToolRegistry ''edit'' = Some editTool
   \<and> list_all (\<lambda>key. editParams key \<noteq> None) (requiredKeys (schema editTool))
   \<and> validateParams newToolRegistry ''edit'' editParams = Invalid (MissingRequired ''newString'')"
  by (simp add: newToolRegistry_edit validateParams_def editTool_def editParams_def
      requiredKeys_def req_def falsyAt_def)

lemma checkSchema_Valid_iff:
  "checkSchema sch ps = Valid \<longleftrightarrow> list_all (\<lambda>key. \<not> falsyAt ps key) (requiredKeys sch)"
  by (induction sch ps rule: checkSchema.induct) (auto simp: requiredKeys_def)

lemma checkSchema_Invalid:
  "checkSchema sch ps \<noteq> Valid \<Longrightarrow>
     \<exists>key. key \<in> set (requiredKeys sch) \<and> falsyAt ps key
          \<and> checkSchema sch ps = Invalid (MissingRequired key)"
  by (induction sch ps rule: checkSchema.induct) (auto simp: requiredKeys_def split: if_splits)

lemma executeStep_invalid:
  assumes "validateParams (registry a) (selectToolForStep e st) (parseStepParams e st) = Invalid verr"
  shows "executeStep e a (JStr st) n ntotal =
           (Inr (failedStep e a st (selectToolForStep e st) n ntotal (ValidationFailed verr)), a)"
  using assms by (simp add: executeStep_def Let_def)

lemma executeStep_valid_invoked:
  assumes "validateParams (registry a) (selectToolForStep e st) (parseStepParams e st) = Valid"
  shows "invoked (snd (executeStep e a (JStr st) n ntotal)) =
           invoked a @ [(n, selectToolForStep e st, parseStepParams e st)]"
  using assms
  by (simp add: executeStep_def Let_def split: tool_outcome.splits option.splits sum.splits)

text \<open>
  C8, amended. Before a unit invokes a tool for a step, validation against the schema of a
  registered tool returns valid exactly when every key marked required has a truthy value
  in the supplied parameters; otherwise it rejects with the missing-parameter error for a
  required key whose value is absent or falsy (\<open>undefined\<close>, \<open>null\<close>, \<open>false\<close>, \<open>0\<close> or the
  empty string), the step ends as a failed step result and the tool's \<open>execute\<close> is not
  invoked. After a valid validation the tool is invoked once.
\<close>

theorem validateParams_rejects_iff_required_falsy:
  assumes "registry a toolName = Some t"
    and "selectToolForStep e st = toolName"
    and "parseStepParams e st = ps"
  shows "(validateParams (registry a) toolName ps = Valid
            \<longleftrightarrow> list_all (\<lambda>key. \<not> falsyAt ps key) (requiredKeys (schema t)))
       \<and> (validateParams (registry a) toolName ps \<noteq> Valid \<longrightarrow>
            (\<exists>key. key \<in> set (requiredKeys (schema t)) \<and> falsyAt ps key
               \<and> validateParams (registry a) toolName ps = Invalid (MissingRequired key)
               \<and> executeStep e a (JStr st) n ntotal =
                   (Inr (failedStep e a st toolName n ntotal
                           (ValidationFailed (MissingRequired key))), a)))
       \<and> (validateParams (registry a) toolName ps = Valid \<longrightarrow>
            invoked (snd (executeStep e a (JStr st) n ntotal)) = invoked a @ [(n, toolName, ps)])"
proof -
  have v: "validateParams (registry a) toolName ps = checkSchema (schema t) ps"
    using assms(1) by (simp add: validateParams_def)
  have one: "validateParams (registry a) toolName ps = Valid
            \<longleftrightarrow> list_all (\<lambda>key. \<not> falsyAt ps key) (requiredKeys (schema t))"
    by (simp add: v checkSchema_Valid_iff)
  have two: "validateParams (registry a) toolName ps \<noteq> Valid \<longrightarrow>
            (\<exists>key. key \<in> set (requiredKeys (schema t)) \<and> falsyAt ps key
               \<and> validateParams (registry a) toolName ps = Invalid (MissingRequired key)
               \<and> executeStep e a (JStr st) n ntotal =
                   (Inr (failedStep e a st toolName n ntotal
                           (ValidationFailed (MissingRequired key))), a))"
  proof
    assume "validateParams (registry a) toolName ps \<noteq> Valid"
    then obtain key where k: "key \<in> set (requiredKeys (schema t))" "falsyAt ps key"
        "validateParams (registry a) toolName ps = Invalid (MissingRequired key)"
      using checkSchema_Invalid[of "schema t" ps] by (auto simp: v)
    have "executeStep e a (JStr st) n ntotal =
        (Inr (failedStep e a st toolName n ntotal (ValidationFailed (MissingRequired key))), a)"
      using executeStep_invalid[of a e st "MissingRequired key" n ntotal] k(3) assms(2,3) by simp
    with k show "\<exists>key. key \<in> set (requiredKeys (schema t)) \<and> falsyAt ps key
               \<and> validateParams (registry a) toolName ps = Invalid (MissingRequired key)
               \<and> executeStep e a (JStr st) n ntotal =
                   (Inr (failedStep e a st toolName n ntotal
                           (ValidationFailed (MissingRequired key))), a)" by blast
  qed
  have three: "validateParams (registry a) toolName ps = Valid \<longrightarrow>
            invoked (snd (executeStep e a (JStr st) n ntotal)) = invoked a @ [(n, toolName, ps)]"
    using executeStep_valid_invoked[of a e st n ntotal] assms(2,3) by simp
  show ?thesis using one two three by blast
qed

lemma plainUnit_registry_bash: "registry plainUnit ''bash'' = Some bashTool"
  by (simp add: plainUnit_def newSubAgent_def newToolRegistry_def initializeDefaultTools_def
      register_def bashTool_def)

theorem validateParams_rejects_iff_required_falsy_witness:
  "registry plainUnit ''bash'' = Some bashTool
   \<and> selectToolForStep plainEnv ''ls'' = ''bash''
   \<and> parseStepParams plainEnv ''ls'' = Map.empty
   \<and> validateParams (registry plainUnit) ''bash'' Map.empty = Invalid (MissingRequired ''command'')
   \<and> executeStep plainEnv plainUnit (JStr ''ls'') 1 1 =
        (Inr (failedStep plainEnv plainUnit ''ls'' ''bash'' 1 1
                (ValidationFailed (MissingRequired ''command''))), plainUnit)"
proof -
  have h2: "selectToolForStep plainEnv ''ls'' = ''bash''" by (simp add: plainEnv_def)
  have h3: "parseStepParams plainEnv ''ls'' = Map.empty" by (simp add: plainEnv_def)
  note main = validateParams_rejects_iff_required_falsy
                [OF plainUnit_registry_bash h2 h3, of 1 1]
  have keys: "requiredKeys (schema bashTool) = [''command'']"
    by (simp add: requiredKeys_def bashTool_def req_def)
  have inv: "validateParams (registry plainUnit) ''bash'' Map.empty
               = Invalid (MissingRequired ''command'')"
    by (simp add: validateParams_def plainUnit_registry_bash bashTool_def req_def falsyAt_def)
  show ?thesis
    using main plainUnit_registry_bash h2 h3 inv by (simp add: keys)
qed

subsection \<open>Exceptions inside a unit\<close>

lemma messageOf_not_nullish: "messageOf th \<noteq> Inl Nullish"
  by (cases th) simp_all

lemma messageOf_Inl: "messageOf th = Inl err \<Longrightarrow> err = Err TypeErrorMsg"
  by (cases th) simp_all

lemma executeStep_throws:
  "fst (executeStep e a step n ntotal) = Inl err \<Longrightarrow> err = Err TypeErrorMsg"
  by (auto simp: executeStep_def Let_def dest: messageOf_Inl
      split: jsval.splits validation.splits tool_outcome.splits option.splits sum.splits)

lemma executeSteps_aborted:
  "aborted a \<Longrightarrow> executeSteps e i ntotal (step # rest) a results = (Inl (Err StepsInterrupted), a)"
  by simp

lemma executeSteps_step_throws:
  "\<not> aborted a \<Longrightarrow> executeStep e a step (i + 1) ntotal = (Inl err, a1) \<Longrightarrow>
     executeSteps e i ntotal (step # rest) a results =
       (Inl err, arrive (abortDuringStep e (i + 1)) a1)"
  by simp

lemma executeSteps_step_returns:
  "\<not> aborted a \<Longrightarrow> executeStep e a step (i + 1) ntotal = (Inr r, a1) \<Longrightarrow>
     executeSteps e i ntotal (step # rest) a results =
       executeSteps e (i + 1) ntotal rest
         ((arrive (abortDuringStep e (i + 1)) a1)
            \<lparr> memory := addToShortTerm (clockStep e (i + 1)) (rndStep e (i + 1))
                          (SubStep (sr_step r) r)
                          (memory (arrive (abortDuringStep e (i + 1)) a1)) \<rparr>)
         (results @ [r])"
  by (simp add: Let_def)

lemma executeSteps_throws:
  "fst (executeSteps e i ntotal steps a results) = Inl err \<Longrightarrow> err \<noteq> Nullish"
proof (induction steps arbitrary: i a results)
  case Nil
  then show ?case by simp
next
  case (Cons step rest)
  show ?case
  proof (cases "aborted a")
    case True
    with Cons.prems show ?thesis by (auto simp add: executeSteps_aborted simp del: executeSteps.simps)
  next
    case False
    obtain r a1 where st: "executeStep e a step (i + 1) ntotal = (r, a1)"
      by (cases "executeStep e a step (i + 1) ntotal") auto
    show ?thesis
    proof (cases r)
      case (Inl th)
      with st have "fst (executeStep e a step (i + 1) ntotal) = Inl th" by simp
      then have "th = Err TypeErrorMsg" by (rule executeStep_throws)
      with Cons.prems show ?thesis
        using executeSteps_step_throws[OF False st[unfolded Inl], of rest results]
        by (auto simp del: executeSteps.simps)
    next
      case (Inr sr)
      show ?thesis
        using Cons.prems Cons.IH
        unfolding executeSteps_step_returns[OF False st[unfolded Inr], of rest results]
        by blast
    qed
  qed
qed

lemma decomposeTask_throws:
  "decomposeTask e t a = Inl err \<Longrightarrow> err = Err TypeErrorMsg"
  by (auto simp: decomposeTask_def Let_def dest: messageOf_Inl
      split: if_splits llm_outcome.splits analysis.splits option.splits sum.splits)

lemma executeBody_throws:
  assumes "fst (executeBody e subTask a) = Inl err"
  shows "err \<noteq> Nullish"
proof -
  let ?a1 = "emitStart (clockStart e) subTask a"
  show ?thesis
  proof (cases "aborted ?a1")
    case True
    with assms show ?thesis by (auto simp add: executeBody_def Let_def)
  next
    case False
    show ?thesis
    proof (cases "decomposeTask e subTask ?a1")
      case (Inl th)
      then have "th = Err TypeErrorMsg" by (rule decomposeTask_throws)
      with assms False Inl show ?thesis by (auto simp add: executeBody_def Let_def)
    next
      case (Inr steps)
      let ?run = "executeSteps e 0 (length steps) steps (arrive (abortDuringDecompose e) ?a1) []"
      obtain r a2 where run: "?run = (r, a2)" by (cases ?run) auto
      show ?thesis
      proof (cases r)
        case (Inl th)
        with run have "fst ?run = Inl th" by simp
        then have "th \<noteq> Nullish" by (rule executeSteps_throws)
        with assms False Inr run Inl show ?thesis by (auto simp add: executeBody_def Let_def)
      next
        case (Inr results)
        with assms False \<open>decomposeTask e subTask ?a1 = Inr steps\<close> run show ?thesis
          by (auto simp add: executeBody_def Let_def)
      qed
    qed
  qed
qed

text \<open>
  C10. \<open>execute\<close> never rejects: for every task, unit and environment (whatever the
  language-model service answers or throws, whatever each tool returns or throws, whenever
  \<open>abort()\<close> is called) its promise is fulfilled with a result that carries a success flag:
  with \<open>{steps, results, summary, duration, memoryUsage, success: true}\<close> when the \<open>try\<close>
  block ran to its end, and with \<open>{error, duration, success: false}\<close>, the error being the
  message of the caught exception, when the block threw. The listeners are those the
  source registers itself.
\<close>

theorem execute_never_rejects:
  "\<exists>r. fst (execute e subTask a) = Inr r
      \<and> (case r of
            Success finalResult \<Rightarrow> fst (executeBody e subTask a) = Inr finalResult
          | Failure errorResult \<Rightarrow>
              fst (executeBody e subTask a) = Inl (Err (ef_error errorResult)))"
proof -
  obtain b a' where body: "executeBody e subTask a = (b, a')"
    by (cases "executeBody e subTask a") auto
  show ?thesis
  proof (cases b)
    case (Inr finalResult)
    with body show ?thesis by (simp add: execute_def)
  next
    case (Inl th)
    with body have "fst (executeBody e subTask a) = Inl th" by simp
    then have "th \<noteq> Nullish" by (rule executeBody_throws)
    then obtain msg where "th = Err msg" by (cases th) auto
    with body Inl show ?thesis by (simp add: execute_def Let_def)
  qed
qed

subsection \<open>Cancellation\<close>

lemma sliceLast_snoc_last: "0 < n \<Longrightarrow> last (sliceLast n (xs @ [x])) = x"
  by (simp add: sliceLast_def)

lemma addMessage_last:
  "last (shortTerm (addMessage now rnd m s)) = enrich now rnd m"
  by (simp add: addMessage_def Let_def compressMemory_def pushMessage_shortTerm sliceLast_snoc_last)

lemma addToShortTerm_last_extra:
  "extra (last (shortTerm (addToShortTerm now rnd p mem))) = p"
  by (simp add: addToShortTerm_def addMessage_last enrich_def)

lemma executeStep_state:
  "snd (executeStep e a step n ntotal) = a\<lparr> invoked := invoked (snd (executeStep e a step n ntotal)) \<rparr>"
  by (simp add: executeStep_def Let_def
      split: jsval.splits validation.splits tool_outcome.splits option.splits sum.splits)

lemma executeSteps_after_abort:
  "aborted a \<Longrightarrow> snd (executeSteps e i ntotal steps a results) = a"
  by (cases steps) simp_all

lemma executeSteps_after_abort_throws:
  "aborted a \<Longrightarrow> steps \<noteq> [] \<Longrightarrow>
     fst (executeSteps e i ntotal steps a results) = Inl (Err StepsInterrupted)"
  by (cases steps) simp_all

lemma abort_during_first_step:
  assumes na: "\<not> aborted a"
    and arr: "abortDuringStep e (i + 1)"
    and st: "executeStep e a (JStr st1) (i + 1) ntotal = (Inr r1, ax)"
  shows "executeSteps e i ntotal (JStr st1 # s2 # rest) a results =
           (Inl (Err StepsInterrupted),
            (abort ax)\<lparr> memory := addToShortTerm (clockStep e (i + 1)) (rndStep e (i + 1))
                                     (SubStep (sr_step r1) r1) (memory (abort ax)) \<rparr>)"
proof -
  let ?a3 = "(abort ax)\<lparr> memory := addToShortTerm (clockStep e (i + 1)) (rndStep e (i + 1))
                                     (SubStep (sr_step r1) r1) (memory (abort ax)) \<rparr>"
  have ab: "aborted ?a3" by (simp add: abort_def)
  have "executeSteps e i ntotal (JStr st1 # s2 # rest) a results =
          executeSteps e (i + 1) ntotal (s2 # rest) ?a3 (results @ [r1])"
    using executeSteps_step_returns[OF na st, of "s2 # rest" results] arr
    by (simp add: arrive_def del: executeSteps.simps)
  also have "\<dots> = (Inl (Err StepsInterrupted), ?a3)"
    using ab by (rule executeSteps_aborted)
  finally show ?thesis .
qed

lemma executeStep_sr_step:
  "executeStep e a (JStr st) n ntotal = (Inr r, ax) \<Longrightarrow> sr_step r = st"
  by (auto simp: executeStep_def Let_def failedStep_def
      split: validation.splits tool_outcome.splits option.splits sum.splits)

lemma executeStep_invoked:
  "invoked (snd (executeStep e a (JStr st) n ntotal)) \<in>
     {invoked a, invoked a @ [(n, selectToolForStep e st, parseStepParams e st)]}"
  by (simp add: executeStep_def Let_def
      split: validation.splits tool_outcome.splits option.splits sum.splits)

text \<open>
  C9. The abort signal is read between steps. Once it is set when the loop of
  \<open>executeSteps\<close> reads it, the loop throws and nothing more is dispatched or recorded.
  When \<open>abort()\<close> is called while step 1 of at least two steps is in flight, step 1 runs to
  completion and its result is the last message recorded in the unit's memory; step 2 is
  never dispatched (the log of tool invocations holds step 1's at most); the unit ends
  aborted: the signal is set, \<open>isRunning\<close> is false, the events emitted are \<open>start\<close>,
  \<open>aborted\<close> and the closing \<open>error\<close>, and \<open>execute\<close> resolves with the interruption error.
\<close>

theorem abort_takes_effect_between_steps:
  "(aborted a \<longrightarrow>
      snd (executeSteps e i ntotal steps a results) = a
    \<and> (steps \<noteq> [] \<longrightarrow>
         fst (executeSteps e i ntotal steps a results) = Inl (Err StepsInterrupted)))
 \<and> (\<not> aborted a0 \<and> \<not> abortDuringDecompose e \<and> abortDuringStep e 1
    \<and> decomposeTask e subTask (emitStart (clockStart e) subTask a0) = Inr (JStr st1 # s2 # rest)
    \<and> executeStep e (emitStart (clockStart e) subTask a0) (JStr st1) 1
          (length (JStr st1 # s2 # rest)) = (Inr r1, ax)
    \<longrightarrow>
      fst (execute e subTask a0) =
        Inr (Failure \<lparr> ef_subAgentId = sa_id a0, ef_parentId = parentId a0, ef_task = subTask,
                        ef_error = StepsInterrupted,
                        ef_duration = int (clockEnd e) - int (clockStart e) \<rparr>)
    \<and> invoked (snd (execute e subTask a0)) \<in>
        {invoked a0, invoked a0 @ [(1, selectToolForStep e st1, parseStepParams e st1)]}
    \<and> extra (last (shortTerm (memory (snd (execute e subTask a0))))) = SubStep st1 r1
    \<and> aborted (snd (execute e subTask a0))
    \<and> \<not> isRunning (snd (execute e subTask a0))
    \<and> emitted (snd (execute e subTask a0)) =
        emitted a0 @
          [EvStart (sa_id a0) subTask, EvAborted (sa_id a0),
           EvError \<lparr> ef_subAgentId = sa_id a0, ef_parentId = parentId a0, ef_task = subTask,
                      ef_error = StepsInterrupted,
                      ef_duration = int (clockEnd e) - int (clockStart e) \<rparr>])"
proof (intro conjI impI)
  assume "aborted a"
  then show "snd (executeSteps e i ntotal steps a results) = a"
    by (rule executeSteps_after_abort)
next
  assume "aborted a" "steps \<noteq> []"
  then show "fst (executeSteps e i ntotal steps a results) = Inl (Err StepsInterrupted)"
    by (rule executeSteps_after_abort_throws)
next
  let ?a1 = "emitStart (clockStart e) subTask a0"
  let ?steps = "JStr st1 # s2 # rest"
  let ?f = "\<lparr> ef_subAgentId = sa_id a0, ef_parentId = parentId a0, ef_task = subTask,
              ef_error = StepsInterrupted,
              ef_duration = int (clockEnd e) - int (clockStart e) \<rparr>"
  assume h: "\<not> aborted a0 \<and> \<not> abortDuringDecompose e \<and> abortDuringStep e 1
    \<and> decomposeTask e subTask ?a1 = Inr ?steps
    \<and> executeStep e ?a1 (JStr st1) 1 (length ?steps) = (Inr r1, ax)"
  let ?a3 = "(abort ax)\<lparr> memory := addToShortTerm (clockStep e 1) (rndStep e 1)
                                     (SubStep (sr_step r1) r1) (memory (abort ax)) \<rparr>"
  have na1: "\<not> aborted ?a1" using h by (simp add: emitStart_def)
  have st: "executeStep e ?a1 (JStr st1) (0 + 1) (length ?steps) = (Inr r1, ax)"
    using h by simp
  have arr: "abortDuringStep e (0 + 1)" using h by simp
  have run: "executeSteps e 0 (length ?steps) ?steps ?a1 [] = (Inl (Err StepsInterrupted), ?a3)"
    using abort_during_first_step[OF na1 arr st, of s2 rest "[]"] by simp
  have ax: "ax = ?a1\<lparr> invoked := invoked ax \<rparr>"
    using executeStep_state[of e ?a1 "JStr st1" 1 "length ?steps"] h by simp
  have body: "executeBody e subTask a0 = (Inl (Err StepsInterrupted), ?a3)"
    using h na1 run by (simp add: executeBody_def Let_def arrive_def del: executeSteps.simps)
  have ids: "sa_id ax = sa_id a0" "parentId ax = parentId a0" "startTime ax = clockStart e"
    "emitted ax = emitted a0 @ [EvStart (sa_id a0) subTask]"
    by (subst ax, simp add: emitStart_def)+
  have ex: "execute e subTask a0 = (Inr (Failure ?f), emitError ?f ?a3)"
    by (simp add: execute_def body Let_def ids abort_def del: executeSteps.simps)
  show "fst (execute e subTask a0) = Inr (Failure ?f)" by (simp add: ex)
  have "invoked ax \<in> {invoked ?a1, invoked ?a1 @ [(1, selectToolForStep e st1, parseStepParams e st1)]}"
    using executeStep_invoked[of e ?a1 st1 1 "length ?steps"] h by simp
  then show "invoked (snd (execute e subTask a0)) \<in>
        {invoked a0, invoked a0 @ [(1, selectToolForStep e st1, parseStepParams e st1)]}"
    by (simp add: ex emitError_def abort_def emitStart_def)
  have "sr_step r1 = st1" using executeStep_sr_step h by blast
  then show "extra (last (shortTerm (memory (snd (execute e subTask a0))))) = SubStep st1 r1"
    by (simp add: ex emitError_def addToShortTerm_last_extra)
  show "aborted (snd (execute e subTask a0))"
    by (simp add: ex emitError_def abort_def)
  show "\<not> isRunning (snd (execute e subTask a0))"
    by (simp add: ex emitError_def)
  have "emitted ?a3 = emitted a0 @ [EvStart (sa_id a0) subTask, EvAborted (sa_id a0)]"
    by (simp add: abort_def ids)
  then show "emitted (snd (execute e subTask a0)) =
        emitted a0 @ [EvStart (sa_id a0) subTask, EvAborted (sa_id a0), EvError ?f]"
    by (simp add: ex emitError_def)
qed

lemma llmUnit_validate:
  "validateParams (registry (emitStart 10 ''ls and pwd'' llmUnit)) ''bash'' [''command'' \<mapsto> JStr ''ls''] = Valid"
  by (simp add: llmUnit_def newSubAgent_def emitStart_def newToolRegistry_def
      initializeDefaultTools_def register_def validateParams_def req_def falsyAt_def)

lemma llmUnit_step1:
  "\<exists>r1 ax. executeStep abortingEnv (emitStart (clockStart abortingEnv) ''ls and pwd'' llmUnit)
              (JStr ''ls'') 1 (length [JStr ''ls'', JStr ''pwd'']) = (Inr r1, ax)
          \<and> invoked ax = [(1, ''bash'', [''command'' \<mapsto> JStr ''ls''])]"
  using llmUnit_validate
  by (simp add: executeStep_def Let_def abortingEnv_def plainEnv_def)
     (simp add: llmUnit_def newSubAgent_def emitStart_def)

theorem abort_takes_effect_between_steps_witness:
  "aborted (abort llmUnit)
   \<and> snd (executeSteps abortingEnv 0 2 [JStr ''ls'', JStr ''pwd''] (abort llmUnit) [])
       = abort llmUnit
   \<and> \<not> aborted llmUnit \<and> \<not> abortDuringDecompose abortingEnv \<and> abortDuringStep abortingEnv 1
   \<and> decomposeTask abortingEnv ''ls and pwd''
        (emitStart (clockStart abortingEnv) ''ls and pwd'' llmUnit) = Inr [JStr ''ls'', JStr ''pwd'']
   \<and> fst (execute abortingEnv ''ls and pwd'' llmUnit) =
        Inr (Failure \<lparr> ef_subAgentId = (1, ''u''), ef_parentId = ''root'',
                        ef_task = ''ls and pwd'', ef_error = StepsInterrupted,
                        ef_duration = 10 \<rparr>)
   \<and> aborted (snd (execute abortingEnv ''ls and pwd'' llmUnit))
   \<and> length (invoked (snd (execute abortingEnv ''ls and pwd'' llmUnit))) \<le> 1"
proof -
  obtain r1 ax where st:
    "executeStep abortingEnv (emitStart (clockStart abortingEnv) ''ls and pwd'' llmUnit)
       (JStr ''ls'') 1 (length [JStr ''ls'', JStr ''pwd'']) = (Inr r1, ax)"
    using llmUnit_step1 by blast
  have h1: "aborted (abort llmUnit)" by (simp add: abort_def)
  have h2: "\<not> aborted llmUnit" by (simp add: llmUnit_def newSubAgent_def)
  have h3: "\<not> abortDuringDecompose abortingEnv \<and> abortDuringStep abortingEnv 1"
    by (simp add: abortingEnv_def plainEnv_def)
  have h4: "decomposeTask abortingEnv ''ls and pwd''
        (emitStart (clockStart abortingEnv) ''ls and pwd'' llmUnit) = Inr [JStr ''ls'', JStr ''pwd'']"
    by (simp add: decomposeTask_def abortingEnv_def plainEnv_def emitStart_def llmUnit_def
        newSubAgent_def)
  have ids: "sa_id llmUnit = (1, ''u'')" "parentId llmUnit = ''root''" "invoked llmUnit = []"
    by (simp_all add: llmUnit_def newSubAgent_def orElse_def)
  have clk: "int (clockEnd abortingEnv) - int (clockStart abortingEnv) = 10"
    by (simp add: abortingEnv_def plainEnv_def)
  note main = abort_takes_effect_between_steps
    [where a = "abort llmUnit" and e = abortingEnv and i = 0 and ntotal = 2
       and steps = "[JStr ''ls'', JStr ''pwd'']" and results = "[]" and ?a0.0 = llmUnit
       and subTask = "''ls and pwd''" and ?st1.0 = "''ls''" and ?s2.0 = "JStr ''pwd''"
       and rest = "[]" and ?r1.0 = r1 and ax = ax]
  have inv: "invoked (snd (execute abortingEnv ''ls and pwd'' llmUnit)) \<in>
      {[], [(1, selectToolForStep abortingEnv ''ls'', parseStepParams abortingEnv ''ls'')]}"
    using main h1 h2 h3 h4 st by (simp add: ids)
  have len: "length (invoked (snd (execute abortingEnv ''ls and pwd'' llmUnit))) \<le> 1"
    using inv by auto
  show ?thesis
    using main h1 h2 h3 h4 st len by (simp add: ids clk)
qed

subsection \<open>The manager's counter\<close>

lemma handleEvent_maxSubAgents: "maxSubAgents (handleEvent sid m ev) = maxSubAgents m"
  by (cases ev) simp_all

lemma handleEvent_activeSubAgents: "activeSubAgents (handleEvent sid m ev) \<le> activeSubAgents m"
  by (cases ev) simp_all

lemma notify_maxSubAgents: "maxSubAgents (notify sid evs m) = maxSubAgents m"
  unfolding notify_def by (induction evs arbitrary: m) (simp_all add: handleEvent_maxSubAgents)

lemma notify_activeSubAgents: "activeSubAgents (notify sid evs m) \<le> activeSubAgents m"
  unfolding notify_def
proof (induction evs arbitrary: m)
  case Nil
  then show ?case by simp
next
  case (Cons ev evs)
  have "activeSubAgents (foldl (handleEvent sid) (handleEvent sid m ev) evs)
          \<le> activeSubAgents (handleEvent sid m ev)" by (rule Cons.IH)
  also have "\<dots> \<le> activeSubAgents m" by (rule handleEvent_activeSubAgents)
  finally show ?case by simp
qed

lemma abortUnit_counter:
  "maxSubAgents (abortUnit sid m) = maxSubAgents m
   \<and> activeSubAgents (abortUnit sid m) \<le> activeSubAgents m"
proof (cases "units m sid")
  case None
  then show ?thesis by (simp add: abortUnit_def)
next
  case (Some a)
  then show ?thesis
    using notify_activeSubAgents[of sid "[EvAborted sid]" "m\<lparr> units := (units m)(sid \<mapsto> abort a) \<rparr>"]
    by (simp add: abortUnit_def notify_maxSubAgents)
qed

lemma abortAll_counter:
  "maxSubAgents (abortAll m) = maxSubAgents m
   \<and> activeSubAgents (abortAll m) \<le> activeSubAgents m"
proof -
  have "maxSubAgents (foldl (\<lambda>m' sid. abortUnit sid m') m sids) = maxSubAgents m
      \<and> activeSubAgents (foldl (\<lambda>m' sid. abortUnit sid m') m sids) \<le> activeSubAgents m"
    for sids
  proof (induction sids arbitrary: m)
    case Nil
    then show ?case by simp
  next
    case (Cons sid sids)
    show ?case
      using Cons.IH[of "abortUnit sid m"] abortUnit_counter[of sid m] by simp
  qed
  then show ?thesis by (simp add: abortAll_def)
qed

lemma settleUnit_counter:
  "maxSubAgents (settleUnit a a' m) = maxSubAgents m
   \<and> activeSubAgents (settleUnit a a' m) \<le> activeSubAgents m"
  using notify_activeSubAgents[of "sa_id a'" "drop (length (emitted a)) (emitted a')"
          "m\<lparr> units := (units m)(sa_id a' \<mapsto> a') \<rparr>"]
  by (simp add: settleUnit_def notify_maxSubAgents)

lemma executeUnit_counter:
  "maxSubAgents (snd (executeUnit e subTask sid m)) = maxSubAgents m
   \<and> activeSubAgents (snd (executeUnit e subTask sid m)) \<le> activeSubAgents m"
  using settleUnit_counter
  by (auto simp: executeUnit_def split: option.splits prod.splits)

lemma createSubAgent_at_ceiling:
  "activeSubAgents m \<ge> maxSubAgents m \<Longrightarrow>
     createSubAgent now rnd info m = Inl (CapacityExceeded (maxSubAgents m))"
  by (simp add: createSubAgent_def)

lemma createSubAgent_below_ceiling:
  "activeSubAgents m < maxSubAgents m \<Longrightarrow>
     createSubAgent now rnd info m =
       Inr (newSubAgent now rnd (mgr_config m) info,
            m\<lparr> subAgents := mapSet (now, rnd) (subAgents m),
               activeSubAgents := activeSubAgents m + 1,
               units := (units m)((now, rnd) \<mapsto> newSubAgent now rnd (mgr_config m) info) \<rparr>)"
  by (simp add: createSubAgent_def Let_def newSubAgent_def)

lemma applyOp_counter:
  "maxSubAgents (applyOp m op) = maxSubAgents m
   \<and> (activeSubAgents m \<le> maxSubAgents m \<longrightarrow> activeSubAgents (applyOp m op) \<le> maxSubAgents m)"
proof (cases op)
  case (Create now rnd info)
  show ?thesis
  proof (cases "activeSubAgents m < maxSubAgents m")
    case True
    then show ?thesis by (simp add: Create createSubAgent_below_ceiling)
  next
    case False
    then show ?thesis by (simp add: Create createSubAgent_at_ceiling)
  qed
next
  case (Execute e subTask sid)
  then show ?thesis using executeUnit_counter[of e subTask sid m] by simp
next
  case (Abort sid)
  then show ?thesis using abortUnit_counter[of sid m] by simp
next
  case AbortAll
  then show ?thesis using abortAll_counter[of m] by simp
qed

lemma runOps_counter:
  "maxSubAgents (runOps ops m) = maxSubAgents m
   \<and> (activeSubAgents m \<le> maxSubAgents m \<longrightarrow> activeSubAgents (runOps ops m) \<le> maxSubAgents m)"
  unfolding runOps_def
proof (induction ops arbitrary: m)
  case Nil
  then show ?case by simp
next
  case (Cons op ops)
  show ?case
    using Cons.IH[of "applyOp m op"] applyOp_counter[of m op] by simp
qed

lemma overbook_subAgents:
  "subAgents (runOps overbookOps (newManager oneUnitConfig)) = [(2, ''b''), (3, ''c'')]"
  by code_simp

lemma overbook_counter_after_abort:
  "activeSubAgents (runOps (take 3 overbookOps) (newManager oneUnitConfig)) = - 1"
  by code_simp

text \<open>
  C2 fails on the source. With \<open>maxSubAgents = 1\<close>, a unit that is aborted and then run
  emits \<open>aborted\<close> and \<open>error\<close>, and the manager decrements its counter for each: the
  counter stands at \<open>-1\<close> with no unit left. Two more \<open>createSubAgent\<close> calls then
  succeed, the second one with the \<open>Map\<close> already holding \<open>maxSubAgents\<close> units, and the
  \<open>Map\<close> ends with two active units.
\<close>

theorem active_units_exceed_maxSubAgents:
  "subAgents (runOps overbookOps (newManager oneUnitConfig)) = [(2, ''b''), (3, ''c'')]
   \<and> maxSubAgents (runOps overbookOps (newManager oneUnitConfig)) = 1
   \<and> activeSubAgents (runOps (take 3 overbookOps) (newManager oneUnitConfig)) = - 1"
  using runOps_counter[of overbookOps "newManager oneUnitConfig"]
  by (simp add: overbook_subAgents overbook_counter_after_abort)
     (simp add: newManager_def oneUnitConfig_def)

subsection \<open>Batches\<close>

lemma execute_fulfilled: "\<exists>r. fst (execute e subTask a) = Inr r"
proof -
  obtain b a' where body: "executeBody e subTask a = (b, a')"
    by (cases "executeBody e subTask a") auto
  show ?thesis
  proof (cases b)
    case (Inr finalResult)
    with body show ?thesis by (simp add: execute_def)
  next
    case (Inl th)
    with body have "fst (executeBody e subTask a) = Inl th" by simp
    then have "th \<noteq> Nullish" by (rule executeBody_throws)
    then obtain msg where "th = Err msg" by (cases th) auto
    with body Inl show ?thesis by (simp add: execute_def Let_def)
  qed
qed

lemma createSubAgents_full:
  "activeSubAgents m \<ge> maxSubAgents m \<Longrightarrow> createSubAgents tasks m = ([], m)"
  by (induction tasks m rule: createSubAgents.induct) (simp_all add: createSubAgent_at_ceiling)

lemma createSubAgents_created:
  "fst (createSubAgents tasks m) = map (unitOf (mgr_config m)) (admitted m tasks)"
proof (induction tasks arbitrary: m)
  case Nil
  then show ?case by (simp add: admitted_def)
next
  case (Cons c tasks)
  obtain now rnd info where c: "c = (now, rnd, info)" by (cases c) auto
  show ?case
  proof (cases "activeSubAgents m < maxSubAgents m")
    case False
    then have "nat (maxSubAgents m - activeSubAgents m) = 0" by simp
    with False show ?thesis
      by (simp add: c createSubAgent_at_ceiling createSubAgents_full admitted_def)
  next
    case True
    let ?m' = "m\<lparr> subAgents := mapSet (now, rnd) (subAgents m),
               activeSubAgents := activeSubAgents m + 1,
               units := (units m)((now, rnd) \<mapsto> newSubAgent now rnd (mgr_config m) info) \<rparr>"
    from True obtain k where k: "nat (maxSubAgents m - activeSubAgents m) = Suc k"
      by (cases "nat (maxSubAgents m - activeSubAgents m)") auto
    then have k': "nat (maxSubAgents ?m' - activeSubAgents ?m') = k" by simp
    have "fst (createSubAgents (c # tasks) m) =
            newSubAgent now rnd (mgr_config m) info # fst (createSubAgents tasks ?m')"
      by (simp add: c createSubAgent_below_ceiling[OF True] split: prod.splits)
    also have "\<dots> = unitOf (mgr_config m) c # map (unitOf (mgr_config m)) (take k tasks)"
      using Cons.IH[of ?m'] k' by (simp add: admitted_def unitOf_def c)
    finally show ?thesis by (simp add: admitted_def k)
  qed
qed

lemma executeConcurrent_results:
  "fst (executeConcurrent envs tasks m) =
     map (\<lambda>(i, a). settle (fst (execute (envs i) (task a) a)))
       (zip [0..<length (admitted m tasks)] (map (unitOf (mgr_config m)) (admitted m tasks)))"
proof -
  obtain created m1 where cr: "createSubAgents tasks m = (created, m1)"
    by (cases "createSubAgents tasks m") auto
  have created: "created = map (unitOf (mgr_config m)) (admitted m tasks)"
    using createSubAgents_created[of tasks m] cr by simp
  show ?thesis
    by (simp add: executeConcurrent_def cr Let_def created case_prod_unfold comp_def)
qed

text \<open>
  C7. \<open>executeConcurrent\<close> creates a unit for each task the manager has room for, in input
  order, and none for the tasks beyond (nothing is queued); every created unit is run, and
  the returned array has one entry per created unit, in input order: the \<open>i\<close>-th entry is
  the outcome of running the unit of the \<open>i\<close>-th task in its own environment, whatever the
  other units do, and it is always a fulfilled entry carrying that unit's result with its
  success flag. No entry is a rejection, so a failing unit never makes the batch throw.
\<close>

theorem executeConcurrent_outcomes_in_input_order:
  "length (fst (executeConcurrent envs tasks m)) = length (admitted m tasks)
   \<and> length (admitted m tasks) = min (length tasks) (nat (maxSubAgents m - activeSubAgents m))
   \<and> (\<forall>i. i < length (admitted m tasks) \<longrightarrow>
         fst (executeConcurrent envs tasks m) ! i =
           settle (fst (execute (envs i) (task (unitOf (mgr_config m) (tasks ! i)))
                          (unitOf (mgr_config m) (tasks ! i))))
       \<and> (\<exists>r. fst (executeConcurrent envs tasks m) ! i = Fulfilled r))"
proof (intro conjI allI impI)
  show "length (fst (executeConcurrent envs tasks m)) = length (admitted m tasks)"
    by (simp add: executeConcurrent_results)
  show "length (admitted m tasks) = min (length tasks) (nat (maxSubAgents m - activeSubAgents m))"
    by (simp add: admitted_def min.commute)
next
  fix i assume i: "i < length (admitted m tasks)"
  then have nth: "admitted m tasks ! i = tasks ! i" by (simp add: admitted_def)
  show eq: "fst (executeConcurrent envs tasks m) ! i =
           settle (fst (execute (envs i) (task (unitOf (mgr_config m) (tasks ! i)))
                          (unitOf (mgr_config m) (tasks ! i))))"
    using i by (simp add: executeConcurrent_results nth)
  obtain r where "fst (execute (envs i) (task (unitOf (mgr_config m) (tasks ! i)))
                          (unitOf (mgr_config m) (tasks ! i))) = Inr r"
    using execute_fulfilled by blast
  then show "\<exists>r. fst (executeConcurrent envs tasks m) ! i = Fulfilled r"
    by (simp add: eq settle_def)
qed

theorem executeConcurrent_outcomes_in_input_order_witness:
  "length (admitted twoUnitManager threeTasks) = 2
   \<and> length (fst (executeConcurrent (\<lambda>i. plainEnv) threeTasks twoUnitManager)) = 2
   \<and> (\<exists>r. fst (executeConcurrent (\<lambda>i. plainEnv) threeTasks twoUnitManager) ! 1 = Fulfilled r)"
proof -
  have two: "length (admitted twoUnitManager threeTasks) = 2"
    by (simp add: admitted_def twoUnitManager_def newManager_def threeTasks_def)
  have h: "1 < length (admitted twoUnitManager threeTasks)" using two by simp
  note main = executeConcurrent_outcomes_in_input_order
                [of "\<lambda>i. plainEnv" threeTasks twoUnitManager]
  from main h have "\<exists>r. fst (executeConcurrent (\<lambda>i. plainEnv) threeTasks twoUnitManager) ! 1 = Fulfilled r"
    by blast
  with main two show ?thesis by simp
qed

end
